theory Spec2Isabelle
  imports Complex_Main
begin

section \<open>Tensors\<close>

text \<open>
  The analysis script \<^verbatim>\<open>test_CAE.py\<close> works on four kinds of tensors: the input batch
  \<^verbatim>\<open>x\<close> of shape (N, C, H, W), the latent batch \<^verbatim>\<open>z\<close> of shape (N, Z), the Jacobian of
  shape (N, C, H, W, Z) and the matrices of the singular value decomposition.  They are
  nested lists here, outermost dimension first, with real entries: the arithmetic of the
  model is exact, the rounding of 32-bit floats is not part of it.  A batch is read as
  the list of its samples, and the trailing dimensions of a shape are read off the first
  element.
\<close>

datatype error = IndexError | RuntimeError

type_synonym vec = "real list"
type_synonym matrix = "real list list"
type_synonym image = "real list list list"
type_synonym batch = "image list"
type_synonym jacobian = "real list list list list list"

definition width :: "'a list list \<Rightarrow> nat" where
  "width m = (case m of [] \<Rightarrow> 0 | r # _ \<Rightarrow> length r)"

definition dims4 :: "batch \<Rightarrow> nat \<times> nat \<times> nat \<times> nat" where
  "dims4 t = (length t, width t, width (concat t), width (concat (concat t)))"

definition shape4 :: "batch \<Rightarrow> nat list list list" where
  "shape4 t = map (map (map length)) t"

definition is_tensor4 :: "batch \<Rightarrow> bool" where
  "is_tensor4 t = (case dims4 t of (n, c, h, w) \<Rightarrow>
     shape4 t = replicate n (replicate c (replicate h w)))"

definition zeros2 :: "nat \<times> nat \<Rightarrow> matrix" where
  "zeros2 s = (case s of (n, z) \<Rightarrow> replicate n (replicate z 0))"

definition zeros5 :: "nat \<times> nat \<times> nat \<times> nat \<Rightarrow> nat \<Rightarrow> jacobian" where
  "zeros5 s z = (case s of (n, c, h, w) \<Rightarrow>
     replicate n (replicate c (replicate h (replicate w (replicate z 0)))))"

definition zero4 :: "batch \<Rightarrow> batch" where
  "zero4 t = map (map (map (map (\<lambda>_. 0)))) t"

definition add4 :: "batch \<Rightarrow> batch \<Rightarrow> batch" where
  "add4 a b = map2 (map2 (map2 (map2 (+)))) a b"

text \<open>\<^verbatim>\<open>jacobian[:, :, :, :, d] = g\<close>: entry \<open>d\<close> of every innermost row is overwritten.\<close>

definition set_col :: "nat \<Rightarrow> batch \<Rightarrow> jacobian \<Rightarrow> jacobian" where
  "set_col d g jac = map2 (map2 (map2 (map2 (\<lambda>row v. row[d := v])))) jac g"

section \<open>Modules and automatic differentiation\<close>

text \<open>
  A call of a \<^verbatim>\<open>torch.nn.Module\<close> may update the buffers of the module (the layers of
  \<^verbatim>\<open>ConvEncoder\<close> and \<^verbatim>\<open>ConvDecoder\<close> in \<^verbatim>\<open>model/autoencoder.py\<close> include
  \<^verbatim>\<open>BatchNorm2d\<close>), so a module is a function of its state and its input batch that
  returns the output and the new state.  The encoder is called on a tensor that requires
  a gradient: its result carries the computation graph, which is the map that
  \<^verbatim>\<open>z.backward(seed, retain_graph=True)\<close> applies to the seed to obtain the gradients
  for the leaves of the graph (the vector-Jacobian products at the point of the forward
  pass).  The leaves are \<^verbatim>\<open>x\<close> and the parameters of the encoder, which require a
  gradient as every parameter of a module does unless it is frozen, and the script
  freezes none.  The gradients for the parameters are kept as one list of numbers.
\<close>

type_synonym pgrad = "real list"
type_synonym graph = "matrix \<Rightarrow> batch \<times> pgrad"
type_synonym 'es encoder = "'es \<Rightarrow> batch \<Rightarrow> (matrix \<times> graph) \<times> 'es"
type_synonym 'ds decoder = "'ds \<Rightarrow> matrix \<Rightarrow> batch \<times> 'ds"

text \<open>
  The input tensor \<^verbatim>\<open>x\<close> with the attributes that \<^verbatim>\<open>find_jacobian\<close> touches, and what
  else a call can change: the buffers of the two modules and the attribute \<^verbatim>\<open>.grad\<close>
  of the parameters of the encoder (empty until a backward pass reaches them).
\<close>

record leaf =
  data :: batch
  requires_grad :: bool
  grad :: "batch option"

record ('es, 'ds) world =
  enc_state :: 'es
  enc_grad :: "pgrad option"
  dec_state :: 'ds
  x_leaf :: leaf

text \<open>
  \<^verbatim>\<open>one_code = torch.zeros(z.size()); one_code[:, d] = 1\<close>.  Index \<open>d\<close> beyond the
  second dimension of \<^verbatim>\<open>z\<close> raises.
\<close>

definition one_hot :: "matrix \<Rightarrow> nat \<Rightarrow> matrix" where
  "one_hot z d = map (\<lambda>r. r[d := 1]) (zeros2 (length z, width z))"

definition one_code :: "matrix \<Rightarrow> nat \<Rightarrow> error + matrix" where
  "one_code z d = (if d < width z then Inr (one_hot z d) else Inl IndexError)"

text \<open>
  \<^verbatim>\<open>z.backward(seed, retain_graph=True)\<close>: the gradient for \<^verbatim>\<open>x\<close> has the shape of
  \<^verbatim>\<open>x\<close> (the engine rejects any other) and is added to \<^verbatim>\<open>x.grad\<close>, which is created
  by the first backward pass.  The same pass adds the gradient for every parameter of
  the encoder to the \<^verbatim>\<open>.grad\<close> of that parameter, entry by entry.  The result is the new
  content of the two buffers.
\<close>

definition accumulate :: "pgrad option \<Rightarrow> pgrad \<Rightarrow> pgrad" where
  "accumulate pacc pg = (case pacc of None \<Rightarrow> pg | Some p \<Rightarrow> map2 (+) p pg)"

definition backward :: "graph \<Rightarrow> batch \<Rightarrow> matrix \<Rightarrow> batch option \<Rightarrow> pgrad option \<Rightarrow>
    error + (batch \<times> pgrad)" where
  "backward gr xd seed acc pacc =
     (case gr seed of (g, pg) \<Rightarrow>
      if shape4 g \<noteq> shape4 xd then Inl RuntimeError
      else Inr (case acc of None \<Rightarrow> g | Some a \<Rightarrow> add4 a g, accumulate pacc pg))"

section \<open>find_jacobian\<close>

text \<open>
  One turn of the loop of \<^verbatim>\<open>find_jacobian\<close> (lines 102 to 107), on the state that the
  loop changes: the gradient buffer \<^verbatim>\<open>x.grad\<close>, the gradient buffers of the parameters
  of the encoder, the Jacobian and the decoder.  Line 107 zeroes \<^verbatim>\<open>x.grad\<close> only.
\<close>

fun jac_step :: "'ds decoder \<Rightarrow> matrix \<Rightarrow> graph \<Rightarrow> batch \<Rightarrow> nat \<Rightarrow>
    batch option \<times> pgrad option \<times> jacobian \<times> 'ds \<Rightarrow>
    error + (batch option \<times> pgrad option \<times> jacobian \<times> 'ds)" where
  "jac_step dec z gr xd d (acc, pacc, jac, ds) =
     (case dec ds z of (x_hat, ds') \<Rightarrow>
       (case one_code z d of
          Inl e \<Rightarrow> Inl e
        | Inr seed \<Rightarrow>
           (case backward gr xd seed acc pacc of
              Inl e \<Rightarrow> Inl e
            | Inr (a, p) \<Rightarrow> Inr (Some (zero4 a), Some p, set_col d a jac, ds'))))"

fun jac_loop :: "'ds decoder \<Rightarrow> matrix \<Rightarrow> graph \<Rightarrow> batch \<Rightarrow> nat list \<Rightarrow>
    batch option \<times> pgrad option \<times> jacobian \<times> 'ds \<Rightarrow>
    error + (batch option \<times> pgrad option \<times> jacobian \<times> 'ds)" where
  "jac_loop dec z gr xd [] st = Inr st"
| "jac_loop dec z gr xd (d # dims) st =
     (case jac_step dec z gr xd d st of Inl e \<Rightarrow> Inl e
      | Inr st' \<Rightarrow> jac_loop dec z gr xd dims st')"

text \<open>
  \<^verbatim>\<open>find_jacobian(encoder, x)\<close>.  The globals \<^verbatim>\<open>latent_dim\<close> and \<^verbatim>\<open>decoder\<close> that
  the body reads are parameters.  \<^verbatim>\<open>x.retain_grad()\<close> changes nothing on a leaf tensor.
\<close>

definition find_jacobian :: "nat \<Rightarrow> 'ds decoder \<Rightarrow> 'es encoder \<Rightarrow> ('es, 'ds) world \<Rightarrow>
    error + (jacobian \<times> ('es, 'ds) world)" where
  "find_jacobian latent_dim dec enc wd =
     (let xl = (x_leaf wd)\<lparr>requires_grad := True\<rparr> in
      case enc (enc_state wd) (data xl) of ((z, gr), es') \<Rightarrow>
       (let jac0 = zeros5 (dims4 (data xl)) (width z) in
        case jac_loop dec z gr (data xl) [0..<latent_dim]
               (grad xl, enc_grad wd, jac0, dec_state wd) of
          Inl e \<Rightarrow> Inl e
        | Inr (acc, pacc, jac, ds') \<Rightarrow>
            Inr (jac, \<lparr>enc_state = es', enc_grad = pacc, dec_state = ds',
                       x_leaf = xl\<lparr>grad := acc\<rparr>\<rparr>)))"

text \<open>
  The variant that the specification allows: the same function with the call
  \<^verbatim>\<open>x_hat = decoder(z)\<close> of line 102 left out.
\<close>

fun jac_step_no_decode :: "matrix \<Rightarrow> graph \<Rightarrow> batch \<Rightarrow> nat \<Rightarrow>
    batch option \<times> pgrad option \<times> jacobian \<Rightarrow>
    error + (batch option \<times> pgrad option \<times> jacobian)" where
  "jac_step_no_decode z gr xd d (acc, pacc, jac) =
     (case one_code z d of
        Inl e \<Rightarrow> Inl e
      | Inr seed \<Rightarrow>
         (case backward gr xd seed acc pacc of
            Inl e \<Rightarrow> Inl e
          | Inr (a, p) \<Rightarrow> Inr (Some (zero4 a), Some p, set_col d a jac)))"

fun jac_loop_no_decode :: "matrix \<Rightarrow> graph \<Rightarrow> batch \<Rightarrow> nat list \<Rightarrow>
    batch option \<times> pgrad option \<times> jacobian \<Rightarrow>
    error + (batch option \<times> pgrad option \<times> jacobian)" where
  "jac_loop_no_decode z gr xd [] st = Inr st"
| "jac_loop_no_decode z gr xd (d # dims) st =
     (case jac_step_no_decode z gr xd d st of Inl e \<Rightarrow> Inl e
      | Inr st' \<Rightarrow> jac_loop_no_decode z gr xd dims st')"

definition find_jacobian_no_decode :: "nat \<Rightarrow> 'es encoder \<Rightarrow> ('es, 'ds) world \<Rightarrow>
    error + (jacobian \<times> ('es, 'ds) world)" where
  "find_jacobian_no_decode latent_dim enc wd =
     (let xl = (x_leaf wd)\<lparr>requires_grad := True\<rparr> in
      case enc (enc_state wd) (data xl) of ((z, gr), es') \<Rightarrow>
       (let jac0 = zeros5 (dims4 (data xl)) (width z) in
        case jac_loop_no_decode z gr (data xl) [0..<latent_dim]
               (grad xl, enc_grad wd, jac0) of
          Inl e \<Rightarrow> Inl e
        | Inr (acc, pacc, jac) \<Rightarrow>
            Inr (jac, \<lparr>enc_state = es', enc_grad = pacc, dec_state = dec_state wd,
                       x_leaf = xl\<lparr>grad := acc\<rparr>\<rparr>)))"

text \<open>The gradient buffer holds nothing that a backward pass would add to.\<close>

definition clean :: "batch option \<Rightarrow> batch \<Rightarrow> bool" where
  "clean acc xd = (case acc of None \<Rightarrow> True | Some a \<Rightarrow> a = zero4 xd)"

text \<open>
  The Jacobian has the nested structure of \<^verbatim>\<open>x\<close>, with a row of \<open>zw\<close> entries in the
  place of every pixel.
\<close>

definition jshape :: "jacobian \<Rightarrow> batch \<Rightarrow> nat \<Rightarrow> bool" where
  "jshape jac xd zw = (map (map (map (map length))) jac = map (map (map (map (\<lambda>_. zw)))) xd)"

text \<open>Pixel \<open>(n, c, h, w)\<close> lies inside the batch.\<close>

definition in_bounds :: "batch \<Rightarrow> nat \<Rightarrow> nat \<Rightarrow> nat \<Rightarrow> nat \<Rightarrow> bool" where
  "in_bounds xd n c h w =
     (n < length xd \<and> c < length (xd ! n) \<and> h < length (xd ! n ! c) \<and> w < length (xd ! n ! c ! h))"

section \<open>Partial derivatives\<close>

text \<open>The batch with pixel \<open>(n, c, h, w)\<close> set to \<open>t\<close>.\<close>

definition upd4 :: "batch \<Rightarrow> nat \<Rightarrow> nat \<Rightarrow> nat \<Rightarrow> nat \<Rightarrow> real \<Rightarrow> batch" where
  "upd4 xd n c h w t =
     xd[n := (xd ! n)[c := (xd ! n ! c)[h := (xd ! n ! c ! h)[w := t]]]]"

text \<open>
  The scalar that \<^verbatim>\<open>z.backward(seed)\<close> differentiates: the sum of the entries of
  \<^verbatim>\<open>z\<close>, each weighted by the entry of the seed at its place.
\<close>

definition seeded :: "matrix \<Rightarrow> matrix \<Rightarrow> real" where
  "seeded seed z = (\<Sum>m<length seed. \<Sum>k<length (seed ! m). seed ! m ! k * z ! m ! k)"

text \<open>
  The graph of a forward pass \<open>f\<close> at the batch \<open>xd\<close> is sound when, for every seed
  of the shape of the output, the gradient it returns for \<^verbatim>\<open>x\<close> holds at every pixel the
  partial derivative of the seeded output with respect to that pixel.
\<close>

definition autograd_sound :: "(batch \<Rightarrow> matrix) \<Rightarrow> batch \<Rightarrow> graph \<Rightarrow> bool" where
  "autograd_sound f xd gr =
     (\<forall>seed n c h w. map length seed = map length (f xd) \<longrightarrow> in_bounds xd n c h w \<longrightarrow>
        ((\<lambda>t. seeded seed (f (upd4 xd n c h w t))) has_field_derivative
           fst (gr seed) ! n ! c ! h ! w) (at (xd ! n ! c ! h ! w)))"

definition is_tensor2 :: "matrix \<Rightarrow> bool" where
  "is_tensor2 z = (\<forall>r \<in> set z. length r = width z)"

text \<open>
  Latent coordinate \<open>d\<close> of the output of the encoder, summed over the batch, as a
  function of the value \<open>t\<close> of pixel \<open>(n, c, h, w)\<close>; and pixel \<open>(c, h, w)\<close> of the
  image decoded for sample \<open>n\<close>, as a function of the value \<open>t\<close> of latent coordinate
  \<open>d\<close> of that sample.
\<close>

definition latent_of_pixel ::
    "'es encoder \<Rightarrow> 'es \<Rightarrow> batch \<Rightarrow> nat \<Rightarrow> nat \<Rightarrow> nat \<Rightarrow> nat \<Rightarrow> nat \<Rightarrow> real \<Rightarrow> real" where
  "latent_of_pixel enc es xd n c h w d t =
     (\<Sum>m<length (fst (fst (enc es xd))). fst (fst (enc es (upd4 xd n c h w t))) ! m ! d)"

definition pixel_of_latent ::
    "'ds decoder \<Rightarrow> 'ds \<Rightarrow> matrix \<Rightarrow> nat \<Rightarrow> nat \<Rightarrow> nat \<Rightarrow> nat \<Rightarrow> nat \<Rightarrow> real \<Rightarrow> real" where
  "pixel_of_latent dec ds z n c h w d t =
     fst (dec ds (z[n := (z ! n)[d := t]])) ! n ! c ! h ! w"

section \<open>A small encoder and decoder\<close>

text \<open>
  A linear pair on images of one pixel and two latent dimensions, used to run the model:
  the encoder maps the pixel \<open>p\<close> of every sample to the latent code \<open>(3p, 7p)\<close>, so
  its graph sends a seed row \<open>(s\<^sub>0, s\<^sub>1)\<close> to the gradient \<open>3s\<^sub>0 + 7s\<^sub>1\<close> for the pixel.
  Its parameters are the two weights 3 and 7, and the gradient for each is the sum over
  the batch of the entry of the seed times the pixel.  The decoder
  maps a latent code to the pixel \<open>5z\<^sub>0\<close>.  The state of each module counts its
  forward calls, as the buffer \<^verbatim>\<open>num_batches_tracked\<close> of a \<^verbatim>\<open>BatchNorm2d\<close> layer in
  training mode does.
\<close>

definition toy_graph :: "batch \<Rightarrow> graph" where
  "toy_graph xd seed =
     (map (\<lambda>r. [[[3 * r ! 0 + 7 * r ! 1]]]) seed,
      [sum_list (map2 (\<lambda>r img. r ! 0 * img ! 0 ! 0 ! 0) seed xd),
       sum_list (map2 (\<lambda>r img. r ! 1 * img ! 0 ! 0 ! 0) seed xd)])"

definition toy_enc :: "nat encoder" where
  "toy_enc s xd =
     ((map (\<lambda>img. [3 * img ! 0 ! 0 ! 0, 7 * img ! 0 ! 0 ! 0]) xd, toy_graph xd), Suc s)"

definition toy_dec :: "nat decoder" where
  "toy_dec s zs = (map (\<lambda>z. [[[5 * z ! 0]]]) zs, Suc s)"

definition toy_world :: "(nat, nat) world" where
  "toy_world = \<lparr>enc_state = 0, enc_grad = None, dec_state = 0,
     x_leaf = \<lparr>data = [[[[2]]]], requires_grad = False, grad = None\<rparr>\<rparr>"

section \<open>Directions and traversals\<close>

text \<open>
  The loop over the samples (lines 112 to 129).  \<^verbatim>\<open>torch.svd\<close> is a parameter of the
  model; what its result has to satisfy is written down in \<open>is_svd\<close> below.
\<close>

definition num_samples :: nat where "num_samples = 10"
definition num_directions :: nat where "num_directions = 5"
definition coeff_range :: real where "coeff_range = 10"

text \<open>\<^verbatim>\<open>torch.linspace(a, b, steps)\<close>, in exact arithmetic.\<close>

definition linspace :: "real \<Rightarrow> real \<Rightarrow> nat \<Rightarrow> real list" where
  "linspace a b steps =
     (if steps = 1 then [a]
      else map (\<lambda>i. a + (b - a) * real i / real (steps - 1)) [0..<steps])"

text \<open>
  \<^verbatim>\<open>m.T\<close> and \<^verbatim>\<open>m[:, d]\<close> for a matrix given by its rows.  The number of columns is
  read off the first row, so the matrices meant are those with at least one row and one
  column, as the factors of the decomposition of a Jacobian with pixels and latent
  dimensions are.
\<close>

definition transp :: "matrix \<Rightarrow> matrix" where
  "transp m = map (\<lambda>j. map (\<lambda>r. r ! j) m) [0..<width m]"

definition col :: "matrix \<Rightarrow> nat \<Rightarrow> error + vec" where
  "col m d = (if d < width m then Inr (map (\<lambda>r. r ! d) m) else Inl IndexError)"

text \<open>\<^verbatim>\<open>direction = v.T[:, d]\<close> (line 119).\<close>

definition direction :: "matrix \<Rightarrow> nat \<Rightarrow> error + vec" where
  "direction v d = col (transp v) d"

text \<open>
  \<^verbatim>\<open>z[None, :] + coeff[:, None]*direction\<close>: one latent point for every coefficient.
  The two operands are broadcast against each other; dimensions that differ, neither
  being 1, raise.
\<close>

definition latent_points :: "vec \<Rightarrow> real list \<Rightarrow> vec \<Rightarrow> error + matrix" where
  "latent_points z coeff dir =
     (if length dir = length z then Inr (map (\<lambda>c. map2 (\<lambda>zi di. zi + c * di) z dir) coeff)
      else if length dir = 1 then Inr (map (\<lambda>c. map (\<lambda>zi. zi + c * dir ! 0) z) coeff)
      else if length z = 1 then Inr (map (\<lambda>c. map (\<lambda>di. z ! 0 + c * di) dir) coeff)
      else Inl RuntimeError)"

text \<open>
  The figure: \<^verbatim>\<open>plt.subplots(nrows=5, ncols=11)\<close> gives a grid of empty axes, and
  \<^verbatim>\<open>ax[r, c].imshow(img)\<close> puts an image on one of them.  A cell holds the image tensor
  that was handed to \<^verbatim>\<open>imshow\<close>, before the change of layout for display, which is the
  same for every cell.
\<close>

type_synonym grid = "image option list list"

definition subplots :: "nat \<Rightarrow> nat \<Rightarrow> grid" where
  "subplots nrows ncols = replicate nrows (replicate ncols None)"

definition imshow :: "grid \<Rightarrow> nat \<Rightarrow> nat \<Rightarrow> image \<Rightarrow> error + grid" where
  "imshow ax r c img =
     (if r < length ax \<and> c < length (ax ! r) then Inr (ax[r := (ax ! r)[c := Some img]])
      else Inl IndexError)"

text \<open>\<^verbatim>\<open>for k in range(len(x_hat)): ax[d, c + k].imshow(x_hat[k])\<close>.\<close>

fun show_images :: "grid \<Rightarrow> nat \<Rightarrow> nat \<Rightarrow> image list \<Rightarrow> error + grid" where
  "show_images ax d c [] = Inr ax"
| "show_images ax d c (img # imgs) =
     (case imshow ax d c img of Inl e \<Rightarrow> Inl e
      | Inr ax' \<Rightarrow> show_images ax' d (Suc c) imgs)"

text \<open>One turn of the loop over the directions (lines 118 to 129).\<close>

definition direction_step :: "'ds decoder \<Rightarrow> vec \<Rightarrow> matrix \<Rightarrow> image \<Rightarrow> nat \<Rightarrow>
    grid \<times> 'ds \<Rightarrow> error + (grid \<times> 'ds)" where
  "direction_step dec z v xn d st =
     (case st of (ax, ds) \<Rightarrow>
      (case imshow ax d 5 xn of Inl e \<Rightarrow> Inl e | Inr ax1 \<Rightarrow>
      (case direction v d of Inl e \<Rightarrow> Inl e | Inr dir \<Rightarrow>
      (case latent_points z (linspace 0 coeff_range 5) dir of Inl e \<Rightarrow> Inl e | Inr pos \<Rightarrow>
      (case dec ds pos of (x_hat, ds1) \<Rightarrow>
      (case show_images ax1 d 6 x_hat of Inl e \<Rightarrow> Inl e | Inr ax2 \<Rightarrow>
      (case latent_points z (linspace (- coeff_range) 0 5) dir of Inl e \<Rightarrow> Inl e | Inr neg \<Rightarrow>
      (case dec ds1 neg of (x_hat', ds2) \<Rightarrow>
      (case show_images ax2 d 0 x_hat' of Inl e \<Rightarrow> Inl e | Inr ax3 \<Rightarrow>
         Inr (ax3, ds2))))))))))"

fun direction_loop :: "'ds decoder \<Rightarrow> vec \<Rightarrow> matrix \<Rightarrow> image \<Rightarrow> nat list \<Rightarrow>
    grid \<times> 'ds \<Rightarrow> error + (grid \<times> 'ds)" where
  "direction_loop dec z v xn [] st = Inr st"
| "direction_loop dec z v xn (d # dirs) st =
     (case direction_step dec z v xn d st of Inl e \<Rightarrow> Inl e
      | Inr st' \<Rightarrow> direction_loop dec z v xn dirs st')"

text \<open>\<^verbatim>\<open>t[n]\<close> and \<^verbatim>\<open>jacobian[n].reshape(-1, latent_dim)\<close>.\<close>

definition item :: "'a list \<Rightarrow> nat \<Rightarrow> error + 'a" where
  "item xs n = (if n < length xs then Inr (xs ! n) else Inl IndexError)"

definition reshape :: "real list list list list \<Rightarrow> nat \<Rightarrow> error + matrix" where
  "reshape jn k =
     (let flat = concat (concat (concat jn)) in
      if k = 0 \<or> length flat mod k \<noteq> 0 then Inl RuntimeError
      else Inr (map (\<lambda>i. take k (drop (i * k) flat)) [0..<length flat div k]))"

text \<open>The body of the loop over the samples, for sample \<open>n\<close>; it returns the figure.\<close>

definition render_sample :: "(matrix \<Rightarrow> matrix \<times> vec \<times> matrix) \<Rightarrow> nat \<Rightarrow> 'ds decoder \<Rightarrow>
    'es encoder \<Rightarrow> batch \<Rightarrow> jacobian \<Rightarrow> nat \<Rightarrow> 'es \<times> 'ds \<Rightarrow> error + (grid \<times> 'es \<times> 'ds)" where
  "render_sample svd latent_dim dec enc xd jac n st =
     (case st of (es, ds) \<Rightarrow>
      (case item jac n of Inl e \<Rightarrow> Inl e | Inr jn \<Rightarrow>
      (case reshape jn latent_dim of Inl e \<Rightarrow> Inl e | Inr m \<Rightarrow>
      (case svd m of (u, s, v) \<Rightarrow>
      (case enc es xd of ((zs, gr), es') \<Rightarrow>
      (case item zs n of Inl e \<Rightarrow> Inl e | Inr z \<Rightarrow>
      (case item xd n of Inl e \<Rightarrow> Inl e | Inr xn \<Rightarrow>
      (case direction_loop dec z v xn [0..<num_directions] (subplots 5 11, ds) of
         Inl e \<Rightarrow> Inl e
       | Inr (ax, ds') \<Rightarrow> Inr (ax, es', ds')))))))))"

text \<open>
  What \<^verbatim>\<open>torch.svd\<close> promises for a matrix \<open>m\<close> of \<open>p\<close> rows and \<open>z\<close> columns: with
  \<open>k\<close> the smaller of the two, \<open>u\<close> has \<open>p\<close> rows and \<open>v\<close> has \<open>z\<close> rows of \<open>k\<close>
  entries, the columns of each are orthonormal, the \<open>k\<close> singular values are not
  negative and do not increase, and \<open>m = u diag(s) v\<^sup>T\<close>.
\<close>

definition dot :: "vec \<Rightarrow> vec \<Rightarrow> real" where
  "dot a b = (\<Sum>k<length a. a ! k * b ! k)"

definition orthonormal_cols :: "matrix \<Rightarrow> bool" where
  "orthonormal_cols v =
     (\<forall>i<width v. \<forall>j<width v.
        (\<Sum>k<length v. v ! k ! i * v ! k ! j) = (if i = j then 1 else 0))"

definition is_svd :: "matrix \<Rightarrow> matrix \<times> vec \<times> matrix \<Rightarrow> bool" where
  "is_svd m usv =
     (case usv of (u, s, v) \<Rightarrow>
      let p = length m; z = width m; k = min p z in
      length u = p \<and> (\<forall>r \<in> set u. length r = k) \<and>
      length v = z \<and> (\<forall>r \<in> set v. length r = k) \<and>
      length s = k \<and> (\<forall>i<k. 0 \<le> s ! i) \<and> (\<forall>i<k. \<forall>j<k. i \<le> j \<longrightarrow> s ! j \<le> s ! i) \<and>
      orthonormal_cols u \<and> orthonormal_cols v \<and>
      (\<forall>i<p. \<forall>j<z. m ! i ! j = (\<Sum>l<k. u ! i ! l * s ! l * v ! j ! l)))"

text \<open>
  Two properties that a decoder may have.  It returns one image for every latent code of
  the batch; and it decodes every latent code on its own, by a map \<open>f\<close> that depends
  neither on the other codes of the batch nor on the buffers of the module, as a module
  does in evaluation mode.
\<close>

definition keeps_batch_size :: "'ds decoder \<Rightarrow> bool" where
  "keeps_batch_size dec = (\<forall>s zs. length (fst (dec s zs)) = length zs)"

definition decodes_each_code :: "'ds decoder \<Rightarrow> (vec \<Rightarrow> image) \<Rightarrow> bool" where
  "decodes_each_code dec f = (\<forall>s zs. fst (dec s zs) = map f zs)"

section \<open>A pair with five latent dimensions\<close>

text \<open>
  The script draws five directions, so it needs at least five latent dimensions.  The
  encoder below is linear on images of one row of five pixels: latent dimension \<open>d\<close>
  of a sample is \<open>\<Sum>\<^sub>p x\<^sub>p m5\<^sub>p\<^sub>d\<close>, so that the flattened Jacobian of every sample is \<open>m5\<close>;
  its parameters are the entries of \<open>m5\<close>, row by row.
  The matrix is \<open>u5 diag(s5) v5\<^sup>T\<close> with \<open>u5\<close> the identity, singular values
  \<open>5, 4, 3, 2, 1\<close> and \<open>v5\<close> a rotation of the first three coordinates; \<open>svd5\<close> stands
  for \<^verbatim>\<open>torch.svd\<close> on this matrix.
\<close>

definition m5 :: matrix where
  "m5 = [[3, 4, 0, 0, 0],
         [- 48 / 25, 36 / 25, 16 / 5, 0, 0],
         [48 / 25, - 36 / 25, 9 / 5, 0, 0],
         [0, 0, 0, 2, 0],
         [0, 0, 0, 0, 1]]"

definition u5 :: matrix where
  "u5 = [[1, 0, 0, 0, 0], [0, 1, 0, 0, 0], [0, 0, 1, 0, 0], [0, 0, 0, 1, 0], [0, 0, 0, 0, 1]]"

definition s5 :: vec where
  "s5 = [5, 4, 3, 2, 1]"

definition v5 :: matrix where
  "v5 = [[3 / 5, - 12 / 25, 16 / 25, 0, 0],
         [4 / 5, 9 / 25, - 12 / 25, 0, 0],
         [0, 4 / 5, 3 / 5, 0, 0],
         [0, 0, 0, 1, 0],
         [0, 0, 0, 0, 1]]"

definition svd5 :: "matrix \<Rightarrow> matrix \<times> vec \<times> matrix" where
  "svd5 m = (u5, s5, v5)"

definition graph5 :: "batch \<Rightarrow> graph" where
  "graph5 xd seed =
     (map (\<lambda>r. [[map (\<lambda>row. sum_list (map2 (*) r row)) m5]]) seed,
      concat (map (\<lambda>p. map (\<lambda>d.
        sum_list (map2 (\<lambda>r img. r ! d * img ! 0 ! 0 ! p) seed xd)) [0..<5]) [0..<5]))"

definition enc5 :: "nat encoder" where
  "enc5 s xd =
     ((map (\<lambda>img. map (\<lambda>d. sum_list (map2 (*) (img ! 0 ! 0) (map (\<lambda>r. r ! d) m5))) [0..<5]) xd,
       graph5 xd), Suc s)"

definition x5 :: batch where
  "x5 = [[[[1, 0, 0, 0, 0]]]]"

definition world5 :: "(nat, nat) world" where
  "world5 = \<lparr>enc_state = 0, enc_grad = None, dec_state = 0,
     x_leaf = \<lparr>data = x5, requires_grad = False, grad = None\<rparr>\<rparr>"

definition jac5 :: jacobian where
  "jac5 = [[[m5]]]"

text \<open>
  A decoder whose output for a latent code depends on the batch the code is in: it
  subtracts the mean of the batch, the first thing a \<^verbatim>\<open>BatchNorm2d\<close> layer does in
  training mode (the mode of the decoder in the script, which never calls
  \<^verbatim>\<open>eval()\<close>).
\<close>

definition bn_dec :: "nat decoder" where
  "bn_dec s zs =
     (map (\<lambda>z. [[[z ! 0 - sum_list (map (\<lambda>y. y ! 0) zs) / real (length zs)]]]) zs, Suc s)"

text \<open>
  The figures that the script draws for the sample \<open>x5\<close>, with the decoder \<open>toy_dec\<close>
  and with the decoder \<open>bn_dec\<close>.
\<close>

definition grid5 :: grid where
  "grid5 =
     [[Some [[[- 15]]], Some [[[- (15 / 2)]]], Some [[[0]]], Some [[[15 / 2]]], Some [[[15]]],
       Some [[[1, 0, 0, 0, 0]]],
       Some [[[15]]], Some [[[45 / 2]]], Some [[[30]]], Some [[[75 / 2]]], Some [[[45]]]],
      [Some [[[- 25]]], Some [[[- 15]]], Some [[[- 5]]], Some [[[5]]], Some [[[15]]],
       Some [[[1, 0, 0, 0, 0]]],
       Some [[[15]]], Some [[[25]]], Some [[[35]]], Some [[[45]]], Some [[[55]]]],
      [Some [[[15]]], Some [[[15]]], Some [[[15]]], Some [[[15]]], Some [[[15]]],
       Some [[[1, 0, 0, 0, 0]]],
       Some [[[15]]], Some [[[15]]], Some [[[15]]], Some [[[15]]], Some [[[15]]]],
      [Some [[[15]]], Some [[[15]]], Some [[[15]]], Some [[[15]]], Some [[[15]]],
       Some [[[1, 0, 0, 0, 0]]],
       Some [[[15]]], Some [[[15]]], Some [[[15]]], Some [[[15]]], Some [[[15]]]],
      [Some [[[15]]], Some [[[15]]], Some [[[15]]], Some [[[15]]], Some [[[15]]],
       Some [[[1, 0, 0, 0, 0]]],
       Some [[[15]]], Some [[[15]]], Some [[[15]]], Some [[[15]]], Some [[[15]]]]]"

definition grid5_bn :: grid where
  "grid5_bn =
     [[Some [[[- 3]]], Some [[[- (3 / 2)]]], Some [[[0]]], Some [[[3 / 2]]], Some [[[3]]],
       Some [[[1, 0, 0, 0, 0]]],
       Some [[[- 3]]], Some [[[- (3 / 2)]]], Some [[[0]]], Some [[[3 / 2]]], Some [[[3]]]],
      [Some [[[- 4]]], Some [[[- 2]]], Some [[[0]]], Some [[[2]]], Some [[[4]]],
       Some [[[1, 0, 0, 0, 0]]],
       Some [[[- 4]]], Some [[[- 2]]], Some [[[0]]], Some [[[2]]], Some [[[4]]]],
      [Some [[[0]]], Some [[[0]]], Some [[[0]]], Some [[[0]]], Some [[[0]]],
       Some [[[1, 0, 0, 0, 0]]],
       Some [[[0]]], Some [[[0]]], Some [[[0]]], Some [[[0]]], Some [[[0]]]],
      [Some [[[0]]], Some [[[0]]], Some [[[0]]], Some [[[0]]], Some [[[0]]],
       Some [[[1, 0, 0, 0, 0]]],
       Some [[[0]]], Some [[[0]]], Some [[[0]]], Some [[[0]]], Some [[[0]]]],
      [Some [[[0]]], Some [[[0]]], Some [[[0]]], Some [[[0]]], Some [[[0]]],
       Some [[[1, 0, 0, 0, 0]]],
       Some [[[0]]], Some [[[0]]], Some [[[0]]], Some [[[0]]], Some [[[0]]]]]"

section \<open>The loop of find_jacobian\<close>

lemma add1_zero: "length r = length r' \<Longrightarrow> map2 (+) (map (\<lambda>_. 0::real) r) r' = r'"
  by (induction r r' rule: list_induct2) auto

lemma add2_zero: "map length m = map length m' \<Longrightarrow>
   map2 (map2 (+)) (map (map (\<lambda>_. 0::real)) m) m' = m'"
proof (induction m arbitrary: m')
  case Nil then show ?case by simp
next
  case (Cons a m)
  then obtain b m'' where "m' = b # m''" by (cases m') auto
  with Cons show ?case by (simp add: add1_zero)
qed

lemma add3_zero: "map (map length) t = map (map length) t' \<Longrightarrow>
   map2 (map2 (map2 (+))) (map (map (map (\<lambda>_. 0::real))) t) t' = t'"
proof (induction t arbitrary: t')
  case Nil then show ?case by simp
next
  case (Cons a m)
  then obtain b m'' where "t' = b # m''" by (cases t') auto
  with Cons show ?case by (simp add: add2_zero)
qed

lemma add4_zero4: "shape4 a = shape4 g \<Longrightarrow> add4 (zero4 a) g = g"
  unfolding shape4_def add4_def zero4_def
proof (induction a arbitrary: g)
  case Nil then show ?case by simp
next
  case (Cons a m)
  then obtain b m'' where "g = b # m''" by (cases g) auto
  with Cons show ?case by (simp add: add3_zero)
qed

lemma zero4_shape: "zero4 a = map (map (map (\<lambda>n. replicate n 0))) (shape4 a)"
  by (simp add: zero4_def shape4_def map_replicate_const comp_def)

lemma zero4_cong: "shape4 a = shape4 b \<Longrightarrow> zero4 a = zero4 b"
  by (simp only: zero4_shape)

lemma shape4_zero4: "shape4 (zero4 a) = shape4 a"
  by (simp add: shape4_def zero4_def comp_def)

lemma backward_clean:
  assumes "clean acc xd" and "backward gr xd seed acc pacc = Inr (a, p)"
  shows "a = fst (gr seed) \<and> shape4 (fst (gr seed)) = shape4 xd
       \<and> p = accumulate pacc (snd (gr seed))"
proof -
  obtain g pg where gr: "gr seed = (g, pg)" by (cases "gr seed")
  from assms(2) gr have sh: "shape4 g = shape4 xd"
    by (auto simp: backward_def split: if_splits)
  from assms(2) gr have p: "p = accumulate pacc pg"
    by (auto simp: backward_def split: if_splits)
  have "a = g"
  proof (cases acc)
    case None
    with assms(2) gr show ?thesis by (auto simp: backward_def split: if_splits)
  next
    case (Some b)
    with assms(1) have "b = zero4 xd" by (simp add: clean_def)
    with Some assms(2) gr sh show ?thesis
      by (auto simp: backward_def add4_zero4 split: if_splits)
  qed
  with sh p gr show ?thesis by simp
qed

lemma jac_step_result:
  assumes "clean acc xd"
    and "jac_step dec z gr xd d (acc, pacc, jac, ds) = Inr (acc', pacc', jac', ds')"
  shows "d < width z" and "shape4 (fst (gr (one_hot z d))) = shape4 xd"
    and "jac' = set_col d (fst (gr (one_hot z d))) jac"
    and "acc' = Some (zero4 xd)" and "ds' = snd (dec ds z)"
    and "pacc' = Some (accumulate pacc (snd (gr (one_hot z d))))"
proof -
  obtain xh ds1 where dc: "dec ds z = (xh, ds1)" by (cases "dec ds z")
  from assms(2) dc have d: "d < width z"
    by (auto simp: one_code_def split: if_splits sum.splits)
  then have oc: "one_code z d = Inr (one_hot z d)" by (simp add: one_code_def)
  from assms(2) dc oc obtain a p where
    bw: "backward gr xd (one_hot z d) acc pacc = Inr (a, p)"
    and r: "acc' = Some (zero4 a)" "jac' = set_col d a jac" "ds' = ds1" "pacc' = Some p"
    by (auto split: sum.splits)
  from backward_clean[OF assms(1) bw] have a: "a = fst (gr (one_hot z d))"
    and sh: "shape4 (fst (gr (one_hot z d))) = shape4 xd"
    and p: "p = accumulate pacc (snd (gr (one_hot z d)))" by simp_all
  show "d < width z" by (rule d)
  show "shape4 (fst (gr (one_hot z d))) = shape4 xd" by (rule sh)
  show "jac' = set_col d (fst (gr (one_hot z d))) jac" using r a by simp
  show "acc' = Some (zero4 xd)" using r a zero4_cong[OF sh] by simp
  show "ds' = snd (dec ds z)" using r dc by simp
  show "pacc' = Some (accumulate pacc (snd (gr (one_hot z d))))" using r p by simp
qed

lemma clean_zero4: "clean (Some (zero4 xd)) xd"
  by (simp add: clean_def)

lemma jac_loop_result:
  assumes "clean acc xd"
    and "jac_loop dec z gr xd dims (acc, pacc, jac, ds) = Inr (acc', pacc', jac', ds')"
  shows "jac' = fold (\<lambda>d. set_col d (fst (gr (one_hot z d)))) dims jac
       \<and> ds' = fold (\<lambda>d s. snd (dec s z)) dims ds
       \<and> acc' = (if dims = [] then acc else Some (zero4 xd))
       \<and> (\<forall>d \<in> set dims. d < width z \<and> shape4 (fst (gr (one_hot z d))) = shape4 xd)
       \<and> pacc' = fold (\<lambda>d p. Some (accumulate p (snd (gr (one_hot z d))))) dims pacc"
  using assms
proof (induction dims arbitrary: acc pacc jac ds)
  case Nil
  then show ?case by simp
next
  case (Cons d dims)
  from Cons.prems(2) obtain acc1 pacc1 jac1 ds1 where
    st: "jac_step dec z gr xd d (acc, pacc, jac, ds) = Inr (acc1, pacc1, jac1, ds1)"
    and lp: "jac_loop dec z gr xd dims (acc1, pacc1, jac1, ds1) = Inr (acc', pacc', jac', ds')"
    by (auto split: sum.splits)
  note r = jac_step_result[OF Cons.prems(1) st]
  have c1: "clean acc1 xd" using r(4) clean_zero4 by simp
  from Cons.IH[OF c1 lp] r show ?case by auto
qed


section \<open>Entries of the Jacobian\<close>

lemma map_eq_nthD:
  "map f xs = map g ys \<Longrightarrow> i < length ys \<Longrightarrow> f (xs ! i) = g (ys ! i)"
  by (metis length_map nth_map)

lemma shape4_bounds:
  assumes "shape4 g = shape4 xd" and "in_bounds xd n c h w"
  shows "in_bounds g n c h w"
proof -
  from assms(2) have n: "n < length xd" and c: "c < length (xd ! n)"
    and h: "h < length (xd ! n ! c)" and w: "w < length (xd ! n ! c ! h)"
    by (simp_all add: in_bounds_def)
  from assms(1) have e0: "map (map (map length)) g = map (map (map length)) xd"
    by (simp add: shape4_def)
  then have l0: "length g = length xd" by (rule map_eq_imp_length_eq)
  from map_eq_nthD[OF e0 n] have e1: "map (map length) (g ! n) = map (map length) (xd ! n)" .
  then have l1: "length (g ! n) = length (xd ! n)" by (rule map_eq_imp_length_eq)
  from map_eq_nthD[OF e1 c] have e2: "map length (g ! n ! c) = map length (xd ! n ! c)" .
  then have l2: "length (g ! n ! c) = length (xd ! n ! c)" by (rule map_eq_imp_length_eq)
  from map_eq_nthD[OF e2 h] have l3: "length (g ! n ! c ! h) = length (xd ! n ! c ! h)" .
  show ?thesis using n c h w l0 l1 l2 l3 by (simp add: in_bounds_def)
qed

lemma jshape_bounds:
  assumes "jshape jac xd zw" and "in_bounds xd n c h w"
  shows "n < length jac" and "c < length (jac ! n)" and "h < length (jac ! n ! c)"
    and "w < length (jac ! n ! c ! h)" and "length (jac ! n ! c ! h ! w) = zw"
proof -
  from assms(2) have n: "n < length xd" and c: "c < length (xd ! n)"
    and h: "h < length (xd ! n ! c)" and w: "w < length (xd ! n ! c ! h)"
    by (simp_all add: in_bounds_def)
  from assms(1) have e0: "map (map (map (map length))) jac = map (map (map (map (\<lambda>_. zw)))) xd"
    by (simp add: jshape_def)
  then have l0: "length jac = length xd" by (rule map_eq_imp_length_eq)
  from map_eq_nthD[OF e0 n]
  have e1: "map (map (map length)) (jac ! n) = map (map (map (\<lambda>_. zw))) (xd ! n)" .
  then have l1: "length (jac ! n) = length (xd ! n)" by (rule map_eq_imp_length_eq)
  from map_eq_nthD[OF e1 c]
  have e2: "map (map length) (jac ! n ! c) = map (map (\<lambda>_. zw)) (xd ! n ! c)" .
  then have l2: "length (jac ! n ! c) = length (xd ! n ! c)" by (rule map_eq_imp_length_eq)
  from map_eq_nthD[OF e2 h]
  have e3: "map length (jac ! n ! c ! h) = map (\<lambda>_. zw) (xd ! n ! c ! h)" .
  then have l3: "length (jac ! n ! c ! h) = length (xd ! n ! c ! h)" by (rule map_eq_imp_length_eq)
  from map_eq_nthD[OF e3 w] have l4: "length (jac ! n ! c ! h ! w) = zw" .
  show "n < length jac" using n l0 by simp
  show "c < length (jac ! n)" using c l1 by simp
  show "h < length (jac ! n ! c)" using h l2 by simp
  show "w < length (jac ! n ! c ! h)" using w l3 by simp
  show "length (jac ! n ! c ! h ! w) = zw" by (rule l4)
qed

lemma nth_map2:
  "i < length xs \<Longrightarrow> i < length ys \<Longrightarrow> map2 f xs ys ! i = f (xs ! i) (ys ! i)"
  by simp

lemma set_col_entry:
  assumes "jshape jac xd zw" and "shape4 g = shape4 xd" and "in_bounds xd n c h w"
  shows "set_col d g jac ! n ! c ! h ! w = (jac ! n ! c ! h ! w)[d := g ! n ! c ! h ! w]"
proof -
  note j = jshape_bounds[OF assms(1) assms(3)]
  from shape4_bounds[OF assms(2) assms(3)]
  have g: "n < length g" "c < length (g ! n)" "h < length (g ! n ! c)" "w < length (g ! n ! c ! h)"
    by (simp_all add: in_bounds_def)
  show ?thesis
    unfolding set_col_def using j(1-4) g by simp
qed


lemma upd1_length: "length rs = length vs \<Longrightarrow>
   map length (map2 (\<lambda>row v. row[d := v]) rs vs) = map length (rs :: real list list)"
  by (induction rs vs rule: list_induct2) auto

lemma upd2_length: "map length R = map length V \<Longrightarrow>
   map (map length) (map2 (map2 (\<lambda>row v. row[d := v])) R V) = map (map length) (R :: real list list list)"
proof (induction R arbitrary: V)
  case Nil then show ?case by simp
next
  case (Cons a R)
  then obtain b V' where "V = b # V'" by (cases V) auto
  with Cons show ?case by (simp add: upd1_length del: map_map)
qed

lemma upd3_length: "map (map length) A = map (map length) B \<Longrightarrow>
   map (map (map length)) (map2 (map2 (map2 (\<lambda>row v. row[d := v]))) A B)
   = map (map (map length)) (A :: real list list list list)"
proof (induction A arbitrary: B)
  case Nil then show ?case by simp
next
  case (Cons a A)
  then obtain b B' where "B = b # B'" by (cases B) auto
  with Cons show ?case by (simp add: upd2_length del: map_map)
qed

lemma upd4_length: "map (map (map length)) J = map (map (map length)) G \<Longrightarrow>
   map (map (map (map length))) (map2 (map2 (map2 (map2 (\<lambda>row v. row[d := v])))) J G)
   = map (map (map (map length))) (J :: real list list list list list)"
proof (induction J arbitrary: G)
  case Nil then show ?case by simp
next
  case (Cons a J)
  then obtain b G' where "G = b # G'" by (cases G) auto
  with Cons show ?case by (simp add: upd3_length del: map_map)
qed

lemma jshape_pixels: "jshape jac xd zw \<Longrightarrow> map (map (map length)) jac = shape4 xd"
proof -
  assume "jshape jac xd zw"
  then have "map (map (map (map length))) jac = map (map (map (map (\<lambda>_. zw)))) xd"
    by (simp add: jshape_def)
  then have "map (map (map length)) (map (map (map (map length))) jac)
      = map (map (map length)) (map (map (map (map (\<lambda>_. zw)))) xd)" by simp
  then show ?thesis by (simp add: shape4_def comp_def)
qed

lemma jshape_set_col:
  assumes "jshape jac xd zw" and "shape4 g = shape4 xd"
  shows "jshape (set_col d g jac) xd zw"
proof -
  have "map (map (map length)) jac = map (map (map length)) g"
    using jshape_pixels[OF assms(1)] assms(2) by (simp add: shape4_def)
  from upd4_length[OF this] assms(1) show ?thesis
    by (simp add: jshape_def set_col_def)
qed

lemma jshape_zeros5:
  assumes "is_tensor4 xd"
  shows "jshape (zeros5 (dims4 xd) zw) xd zw"
proof -
  obtain n c h w where d: "dims4 xd = (n, c, h, w)" by (cases "dims4 xd")
  with assms have sh: "shape4 xd = replicate n (replicate c (replicate h w))"
    by (simp add: is_tensor4_def)
  have "map (map (map (map (\<lambda>_. zw)))) xd = map (map (map (\<lambda>k. replicate k zw))) (shape4 xd)"
    by (simp add: shape4_def map_replicate_const comp_def)
  also have "\<dots> = replicate n (replicate c (replicate h (replicate w zw)))"
    by (simp add: sh)
  finally show ?thesis by (simp add: jshape_def zeros5_def d)
qed

lemma fold_upd_nth:
  "distinct dims \<Longrightarrow> k < length row \<Longrightarrow>
   fold (\<lambda>d r. r[d := f d]) dims row ! k = (if k \<in> set dims then f k else row ! k)"
proof (induction dims arbitrary: row)
  case Nil then show ?case by simp
next
  case (Cons d dims)
  then show ?case by (auto simp: nth_list_update)
qed

lemma fold_set_col_entry:
  assumes "jshape jac xd zw" and "\<forall>d \<in> set dims. shape4 (G d) = shape4 xd"
    and "in_bounds xd n c h w"
  shows "fold (\<lambda>d. set_col d (G d)) dims jac ! n ! c ! h ! w
       = fold (\<lambda>d r. r[d := G d ! n ! c ! h ! w]) dims (jac ! n ! c ! h ! w)"
  using assms(1,2)
proof (induction dims arbitrary: jac)
  case Nil then show ?case by simp
next
  case (Cons d dims)
  have sh: "shape4 (G d) = shape4 xd" using Cons.prems(2) by simp
  have j: "jshape (set_col d (G d) jac) xd zw" by (rule jshape_set_col[OF Cons.prems(1) sh])
  have r: "\<forall>d \<in> set dims. shape4 (G d) = shape4 xd" using Cons.prems(2) by simp
  show ?case
    using Cons.IH[OF j r] set_col_entry[OF Cons.prems(1) sh assms(3)] by simp
qed


lemma find_jacobian_unfold:
  assumes "find_jacobian latent_dim dec enc wd = Inr (jac, wd')"
    and "enc (enc_state wd) (data (x_leaf wd)) = ((z, gr), es')"
  shows "\<exists>acc pacc ds'.
      jac_loop dec z gr (data (x_leaf wd)) [0..<latent_dim]
        (grad (x_leaf wd), enc_grad wd, zeros5 (dims4 (data (x_leaf wd))) (width z),
         dec_state wd)
        = Inr (acc, pacc, jac, ds')
    \<and> wd' = \<lparr>enc_state = es', enc_grad = pacc, dec_state = ds',
             x_leaf = (x_leaf wd)\<lparr>requires_grad := True, grad := acc\<rparr>\<rparr>"
  using assms
  by (auto simp: find_jacobian_def Let_def split: sum.splits prod.splits)

lemma find_jacobian_entry:
  assumes fj: "find_jacobian latent_dim dec enc wd = Inr (jac, wd')"
    and en: "enc (enc_state wd) (data (x_leaf wd)) = ((z, gr), es')"
    and cl: "clean (grad (x_leaf wd)) (data (x_leaf wd))"
    and te: "is_tensor4 (data (x_leaf wd))"
    and ib: "in_bounds (data (x_leaf wd)) n c h w"
    and d: "d < latent_dim"
  shows "jac ! n ! c ! h ! w ! d = fst (gr (one_hot z d)) ! n ! c ! h ! w"
proof -
  let ?xd = "data (x_leaf wd)"
  let ?j0 = "zeros5 (dims4 ?xd) (width z)"
  from find_jacobian_unfold[OF fj en] obtain acc pacc ds' where
    lp: "jac_loop dec z gr ?xd [0..<latent_dim]
           (grad (x_leaf wd), enc_grad wd, ?j0, dec_state wd)
         = Inr (acc, pacc, jac, ds')" by blast
  from jac_loop_result[OF cl lp]
  have jac: "jac = fold (\<lambda>d. set_col d (fst (gr (one_hot z d)))) [0..<latent_dim] ?j0"
    and ok: "\<forall>d \<in> set [0..<latent_dim]. d < width z \<and> shape4 (fst (gr (one_hot z d))) = shape4 ?xd"
    by simp_all
  have js: "jshape ?j0 ?xd (width z)" by (rule jshape_zeros5[OF te])
  have sh: "\<forall>d \<in> set [0..<latent_dim]. shape4 (fst (gr (one_hot z d))) = shape4 ?xd"
    using ok by simp
  have dz: "d < width z" using ok d by simp
  have len: "d < length (?j0 ! n ! c ! h ! w)"
    using jshape_bounds(5)[OF js ib] dz by simp
  have "jac ! n ! c ! h ! w
      = fold (\<lambda>d r. r[d := fst (gr (one_hot z d)) ! n ! c ! h ! w]) [0..<latent_dim] (?j0 ! n ! c ! h ! w)"
    unfolding jac by (rule fold_set_col_entry[OF js sh ib])
  then show ?thesis
    using fold_upd_nth[of "[0..<latent_dim]" d "?j0 ! n ! c ! h ! w"
        "\<lambda>d. fst (gr (one_hot z d)) ! n ! c ! h ! w"] len d by simp
qed


section \<open>The decode call in the loop\<close>

lemma jac_step_no_decode_eq:
  "jac_step dec z gr xd d (acc, pacc, jac, ds) =
     (case jac_step_no_decode z gr xd d (acc, pacc, jac) of
        Inl e \<Rightarrow> Inl e
      | Inr (a, p, j) \<Rightarrow> Inr (a, p, j, snd (dec ds z)))"
  by (cases "dec ds z") (simp split: sum.splits)

lemma jac_loop_no_decode_eq:
  "jac_loop dec z gr xd dims (acc, pacc, jac, ds) =
     (case jac_loop_no_decode z gr xd dims (acc, pacc, jac) of
        Inl e \<Rightarrow> Inl e
      | Inr (a, p, j) \<Rightarrow> Inr (a, p, j, fold (\<lambda>d s. snd (dec s z)) dims ds))"
proof (induction dims arbitrary: acc pacc jac ds)
  case Nil
  show ?case by simp
next
  case (Cons d dims)
  show ?case
  proof (cases "jac_step_no_decode z gr xd d (acc, pacc, jac)")
    case (Inl e)
    then show ?thesis by (simp add: jac_step_no_decode_eq del: jac_step.simps jac_step_no_decode.simps)
  next
    case (Inr st)
    obtain a p j where st: "st = (a, p, j)" by (cases st)
    with Inr Cons.IH[of a p j "snd (dec ds z)"] show ?thesis
      by (simp add: jac_step_no_decode_eq del: jac_step.simps jac_step_no_decode.simps
            split: sum.splits)
  qed
qed

text \<open>
  Claim C7.  The Jacobian that \<^verbatim>\<open>find_jacobian\<close> returns does not depend on the call
  \<^verbatim>\<open>decoder(z)\<close> inside the loop: for every encoder, decoder, latent dimension and
  state, the function and its variant without that call return the same Jacobian, or
  fail with the same error.
\<close>

theorem find_jacobian_decode_redundant:
  "map_sum id fst (find_jacobian latent_dim dec enc wd) =
   map_sum id fst (find_jacobian_no_decode latent_dim enc wd)"
  by (simp add: find_jacobian_def find_jacobian_no_decode_def Let_def jac_loop_no_decode_eq
        split: prod.splits sum.splits)

section \<open>Running the small pair\<close>

lemma toy_run:
  "find_jacobian 2 toy_dec toy_enc toy_world =
     Inr ([[[[[3, 7]]]]],
          \<lparr>enc_state = 1, enc_grad = Some [2, 2], dec_state = 2,
           x_leaf = \<lparr>data = [[[[2]]]], requires_grad = True, grad = Some [[[[0]]]]\<rparr>\<rparr>)"
  by (simp add: find_jacobian_def toy_enc_def toy_graph_def toy_dec_def toy_world_def Let_def
        upt_rec[of 0] upt_rec[of 1] upt_rec[of "Suc 0"] one_code_def one_hot_def zeros2_def zeros5_def width_def dims4_def
        backward_def accumulate_def shape4_def add4_def zero4_def set_col_def numeral_2_eq_2)

lemma toy_clean: "clean (grad (x_leaf toy_world)) (data (x_leaf toy_world))"
  by (simp add: clean_def toy_world_def)

lemma toy_tensor: "is_tensor4 (data (x_leaf toy_world))"
  by (simp add: is_tensor4_def dims4_def width_def shape4_def toy_world_def)

section \<open>One forward pass of the encoder\<close>

text \<open>
  Claim C3.  A call of \<^verbatim>\<open>find_jacobian\<close> that returns has called the encoder exactly
  once, before the loop: the buffers of the encoder afterwards are as one forward call
  on \<^verbatim>\<open>x\<close> leaves them, and every column \<open>d\<close> of the Jacobian is the one-hot seed
  for \<open>d\<close> sent through the graph of that one call, at the latent batch of that one
  call.  The latent batch is not computed again between columns.
\<close>

theorem find_jacobian_single_encode:
  assumes "find_jacobian latent_dim dec enc wd = Inr (jac, wd')"
    and "clean (grad (x_leaf wd)) (data (x_leaf wd))"
    and "is_tensor4 (data (x_leaf wd))"
  shows "enc_state wd' = snd (enc (enc_state wd) (data (x_leaf wd))) \<and>
    (\<forall>d<latent_dim. \<forall>n c h w. in_bounds (data (x_leaf wd)) n c h w \<longrightarrow>
       jac ! n ! c ! h ! w ! d =
       fst (snd (fst (enc (enc_state wd) (data (x_leaf wd))))
         (one_hot (fst (fst (enc (enc_state wd) (data (x_leaf wd))))) d)) ! n ! c ! h ! w)"
proof -
  obtain z gr es' where en: "enc (enc_state wd) (data (x_leaf wd)) = ((z, gr), es')"
    by (metis prod.exhaust)
  from find_jacobian_unfold[OF assms(1) en] have "enc_state wd' = es'" by auto
  moreover have "\<forall>d<latent_dim. \<forall>n c h w. in_bounds (data (x_leaf wd)) n c h w \<longrightarrow>
       jac ! n ! c ! h ! w ! d = fst (gr (one_hot z d)) ! n ! c ! h ! w"
    using find_jacobian_entry[OF assms(1) en assms(2) assms(3)] by blast
  ultimately show ?thesis by (simp add: en)
qed

theorem find_jacobian_single_encode_witness:
  "find_jacobian 2 toy_dec toy_enc toy_world =
     Inr ([[[[[3, 7]]]]],
          \<lparr>enc_state = 1, enc_grad = Some [2, 2], dec_state = 2,
           x_leaf = \<lparr>data = [[[[2]]]], requires_grad = True, grad = Some [[[[0]]]]\<rparr>\<rparr>)
   \<and> clean (grad (x_leaf toy_world)) (data (x_leaf toy_world))
   \<and> is_tensor4 (data (x_leaf toy_world))
   \<and> snd (toy_enc (enc_state toy_world) (data (x_leaf toy_world))) = 1
   \<and> fst (snd (fst (toy_enc (enc_state toy_world) (data (x_leaf toy_world))))
       (one_hot (fst (fst (toy_enc (enc_state toy_world) (data (x_leaf toy_world))))) 1))
       ! 0 ! 0 ! 0 ! 0 = 7"
proof -
  have ib: "in_bounds (data (x_leaf toy_world)) 0 0 0 0"
    by (simp add: in_bounds_def toy_world_def)
  note t = find_jacobian_single_encode[OF toy_run toy_clean toy_tensor]
  have a: "snd (toy_enc (enc_state toy_world) (data (x_leaf toy_world))) = 1"
    using conjunct1[OF t] by simp
  have b: "fst (snd (fst (toy_enc (enc_state toy_world) (data (x_leaf toy_world))))
       (one_hot (fst (fst (toy_enc (enc_state toy_world) (data (x_leaf toy_world))))) 1))
       ! 0 ! 0 ! 0 ! 0 = 7"
    using conjunct2[OF t, rule_format, of 1 0 0 0 0] ib by simp
  show ?thesis
    by (intro conjI) (rule toy_run toy_clean toy_tensor a b)+
qed

section \<open>The gradient buffer\<close>

lemma jac_loop_append:
  "jac_loop dec z gr xd (xs @ ys) st =
     (case jac_loop dec z gr xd xs st of Inl e \<Rightarrow> Inl e
      | Inr st' \<Rightarrow> jac_loop dec z gr xd ys st')"
  by (induction xs arbitrary: st) (simp_all split: sum.splits)

lemma toy_enc_call:
  "toy_enc (enc_state toy_world) (data (x_leaf toy_world)) =
     (([[6, 14]], toy_graph [[[[2]]]]), 1)"
  by (simp add: toy_enc_def toy_world_def)

text \<open>
  Claim C4.  Every turn of the loop of \<^verbatim>\<open>find_jacobian\<close> starts on a gradient buffer
  \<^verbatim>\<open>x.grad\<close> that holds nothing (it is empty before the first backward pass and zero
  after each one), stores as column \<open>d\<close> the gradient of the one-hot seed for \<open>d\<close>
  alone, and leaves the buffer zero; so column \<open>d\<close> of the Jacobian that is returned is
  that gradient, with nothing accumulated from the dimensions before it.  (The turn also
  adds the gradient for the parameters of the encoder to their buffers, which are not
  read by the loop.)
\<close>

theorem find_jacobian_buffer_reset:
  assumes fj: "find_jacobian latent_dim dec enc wd = Inr (jac, wd')"
    and en: "enc (enc_state wd) (data (x_leaf wd)) = ((z, gr), es')"
    and cl: "clean (grad (x_leaf wd)) (data (x_leaf wd))"
    and te: "is_tensor4 (data (x_leaf wd))"
  shows "\<forall>d<latent_dim.
    (\<exists>acc pacc j ds.
       jac_loop dec z gr (data (x_leaf wd)) [0..<d]
         (grad (x_leaf wd), enc_grad wd, zeros5 (dims4 (data (x_leaf wd))) (width z),
          dec_state wd)
         = Inr (acc, pacc, j, ds)
       \<and> clean acc (data (x_leaf wd))
       \<and> jac_step dec z gr (data (x_leaf wd)) d (acc, pacc, j, ds)
         = Inr (Some (zero4 (data (x_leaf wd))),
                Some (accumulate pacc (snd (gr (one_hot z d)))),
                set_col d (fst (gr (one_hot z d))) j, snd (dec ds z)))
    \<and> (\<forall>n c h w. in_bounds (data (x_leaf wd)) n c h w \<longrightarrow>
         jac ! n ! c ! h ! w ! d = fst (gr (one_hot z d)) ! n ! c ! h ! w)"
proof (intro allI impI conjI)
  fix d assume d: "d < latent_dim"
  let ?xd = "data (x_leaf wd)"
  let ?st0 = "(grad (x_leaf wd), enc_grad wd, zeros5 (dims4 ?xd) (width z), dec_state wd)"
  from find_jacobian_unfold[OF fj en] obtain acc' pacc' ds' where
    lp: "jac_loop dec z gr ?xd [0..<latent_dim] ?st0 = Inr (acc', pacc', jac, ds')" by blast
  have split: "[0..<latent_dim] = [0..<d] @ (d # [Suc d..<latent_dim])"
    using d by (metis less_imp_le_nat upt_add_eq_append upt_conv_Cons zero_le
        le_add_diff_inverse plus_nat.add_0)
  from lp obtain st1 where
    p1: "jac_loop dec z gr ?xd [0..<d] ?st0 = Inr st1"
    and p2: "jac_loop dec z gr ?xd (d # [Suc d..<latent_dim]) st1 = Inr (acc', pacc', jac, ds')"
    unfolding split jac_loop_append by (auto split: sum.splits)
  obtain acc pacc j ds where st1: "st1 = (acc, pacc, j, ds)" by (cases st1)
  from jac_loop_result[OF cl p1[unfolded st1]] cl
  have c1: "clean acc ?xd" by (auto simp: clean_zero4)
  from p2 obtain acc2 pacc2 j2 ds2 where
    s: "jac_step dec z gr ?xd d (acc, pacc, j, ds) = Inr (acc2, pacc2, j2, ds2)"
    unfolding st1 by (auto split: sum.splits)
  note r = jac_step_result[OF c1 s]
  show "\<exists>acc pacc j ds. jac_loop dec z gr ?xd [0..<d] ?st0 = Inr (acc, pacc, j, ds)
       \<and> clean acc ?xd
       \<and> jac_step dec z gr ?xd d (acc, pacc, j, ds)
         = Inr (Some (zero4 ?xd), Some (accumulate pacc (snd (gr (one_hot z d)))),
                set_col d (fst (gr (one_hot z d))) j, snd (dec ds z))"
    using p1 st1 c1 s r(3,4,5,6) by blast
next
  fix d n c h w
  assume "d < latent_dim" and "in_bounds (data (x_leaf wd)) n c h w"
  then show "jac ! n ! c ! h ! w ! d = fst (gr (one_hot z d)) ! n ! c ! h ! w"
    using find_jacobian_entry[OF fj en cl te] by blast
qed

theorem find_jacobian_buffer_reset_witness:
  "find_jacobian 2 toy_dec toy_enc toy_world =
     Inr ([[[[[3, 7]]]]],
          \<lparr>enc_state = 1, enc_grad = Some [2, 2], dec_state = 2,
           x_leaf = \<lparr>data = [[[[2]]]], requires_grad = True, grad = Some [[[[0]]]]\<rparr>\<rparr>)
   \<and> toy_enc (enc_state toy_world) (data (x_leaf toy_world)) =
     (([[6, 14]], toy_graph [[[[2]]]]), 1)
   \<and> clean (grad (x_leaf toy_world)) (data (x_leaf toy_world))
   \<and> is_tensor4 (data (x_leaf toy_world))
   \<and> [[[[[3, 7 :: real]]]]] ! 0 ! 0 ! 0 ! 0 ! 1 =
       fst (toy_graph [[[[2]]]] (one_hot [[6, 14]] 1)) ! 0 ! 0 ! 0 ! 0"
proof -
  have ib: "in_bounds (data (x_leaf toy_world)) 0 0 0 0"
    by (simp add: in_bounds_def toy_world_def)
  note t = find_jacobian_buffer_reset[OF toy_run toy_enc_call toy_clean toy_tensor]
  have b: "[[[[[3, 7 :: real]]]]] ! 0 ! 0 ! 0 ! 0 ! 1 =
       fst (toy_graph [[[[2]]]] (one_hot [[6, 14]] 1)) ! 0 ! 0 ! 0 ! 0"
    using t[rule_format, of 1, THEN conjunct2, rule_format, of 0 0 0 0] ib by simp
  show ?thesis
    by (intro conjI) (rule toy_run toy_enc_call toy_clean toy_tensor b)+
qed

section \<open>What a call of find_jacobian leaves behind\<close>

lemma jac_step_params:
  assumes "jac_step dec z gr xd d (acc, pacc, jac, ds) = Inr (acc', pacc', jac', ds')"
  shows "pacc' = Some (accumulate pacc (snd (gr (one_hot z d))))"
  using assms
  by (auto simp: one_code_def backward_def split: if_splits sum.splits prod.splits)

lemma jac_loop_params:
  assumes "jac_loop dec z gr xd dims (acc, pacc, jac, ds) = Inr (acc', pacc', jac', ds')"
  shows "pacc' = fold (\<lambda>d p. Some (accumulate p (snd (gr (one_hot z d))))) dims pacc"
  using assms
proof (induction dims arbitrary: acc pacc jac ds)
  case Nil
  then show ?case by simp
next
  case (Cons d dims)
  from Cons.prems obtain acc1 pacc1 jac1 ds1 where
    st: "jac_step dec z gr xd d (acc, pacc, jac, ds) = Inr (acc1, pacc1, jac1, ds1)"
    and lp: "jac_loop dec z gr xd dims (acc1, pacc1, jac1, ds1) = Inr (acc', pacc', jac', ds')"
    by (auto split: sum.splits)
  from Cons.IH[OF lp] jac_step_params[OF st] show ?case by simp
qed

lemma fold_Some:
  "dims \<noteq> [] \<Longrightarrow> fold (\<lambda>d p. Some (f d p)) dims p0 \<noteq> None"
  by (cases dims rule: rev_cases) simp_all

text \<open>
  Claim C8, as stated, fails: \<^verbatim>\<open>x.requires_grad_(True)\<close> (line 96) leaves the caller's
  input tensor marked as requiring a gradient, the first backward pass creates its
  gradient buffer, every backward pass adds to the gradient buffers of the parameters of
  the encoder, which nothing resets, and every forward call advances the buffers of the
  module it calls.  On the small pair the input tensor, the gradient buffers of the
  encoder and the states of the two modules after the call all differ from what they
  were before it.
\<close>

theorem find_jacobian_frame_counterexample:
  "find_jacobian 2 toy_dec toy_enc toy_world =
     Inr ([[[[[3, 7]]]]],
          \<lparr>enc_state = 1, enc_grad = Some [2, 2], dec_state = 2,
           x_leaf = \<lparr>data = [[[[2]]]], requires_grad = True, grad = Some [[[[0]]]]\<rparr>\<rparr>)
   \<and> toy_world = \<lparr>enc_state = 0, enc_grad = None, dec_state = 0,
           x_leaf = \<lparr>data = [[[[2]]]], requires_grad = False, grad = None\<rparr>\<rparr>
   \<and> \<lparr>data = [[[[2]]]], requires_grad = True, grad = Some [[[[0]]]]\<rparr> \<noteq> x_leaf toy_world
   \<and> Some [2, 2] \<noteq> enc_grad toy_world
   \<and> (1 :: nat) \<noteq> enc_state toy_world
   \<and> (2 :: nat) \<noteq> dec_state toy_world"
  using toy_run by (simp add: toy_world_def)

text \<open>
  Claim C8, amended.  After \<^verbatim>\<open>find_jacobian\<close> returns, the values of the input tensor
  are unchanged and the tensor requires a gradient; a gradient buffer of the input that
  held nothing before the call is zero afterwards (it stays as it was when
  \<^verbatim>\<open>latent_dim\<close> is 0).  The gradient buffers of the parameters of the encoder are not
  reset: they hold what they held before the call with the parameter gradient of each of
  the \<^verbatim>\<open>latent_dim\<close> backward passes added, so they are not empty when \<^verbatim>\<open>latent_dim\<close>
  is positive.  The buffers of the encoder are as one forward call on \<^verbatim>\<open>x\<close> leaves
  them, those of the decoder as \<^verbatim>\<open>latent_dim\<close> forward calls on the latent batch leave
  them.
\<close>

theorem find_jacobian_frame:
  assumes fj: "find_jacobian latent_dim dec enc wd = Inr (jac, wd')"
  shows "data (x_leaf wd') = data (x_leaf wd)
    \<and> requires_grad (x_leaf wd')
    \<and> (clean (grad (x_leaf wd)) (data (x_leaf wd)) \<longrightarrow>
        grad (x_leaf wd') =
          (if latent_dim = 0 then grad (x_leaf wd) else Some (zero4 (data (x_leaf wd)))))
    \<and> enc_grad wd' =
        fold (\<lambda>d p. Some (accumulate p
                (snd (snd (fst (enc (enc_state wd) (data (x_leaf wd))))
                   (one_hot (fst (fst (enc (enc_state wd) (data (x_leaf wd))))) d)))))
          [0..<latent_dim] (enc_grad wd)
    \<and> (0 < latent_dim \<longrightarrow> enc_grad wd' \<noteq> None)
    \<and> enc_state wd' = snd (enc (enc_state wd) (data (x_leaf wd)))
    \<and> dec_state wd' =
        fold (\<lambda>d s. snd (dec s (fst (fst (enc (enc_state wd) (data (x_leaf wd)))))))
          [0..<latent_dim] (dec_state wd)"
proof -
  let ?xd = "data (x_leaf wd)"
  obtain z gr es' where en: "enc (enc_state wd) ?xd = ((z, gr), es')"
    by (metis prod.exhaust)
  from find_jacobian_unfold[OF fj en] obtain acc pacc ds' where
    lp: "jac_loop dec z gr ?xd [0..<latent_dim]
           (grad (x_leaf wd), enc_grad wd, zeros5 (dims4 ?xd) (width z), dec_state wd)
         = Inr (acc, pacc, jac, ds')"
    and w: "wd' = \<lparr>enc_state = es', enc_grad = pacc, dec_state = ds',
             x_leaf = (x_leaf wd)\<lparr>requires_grad := True, grad := acc\<rparr>\<rparr>" by blast
  from lp have ds: "ds' = fold (\<lambda>d s. snd (dec s z)) [0..<latent_dim] (dec_state wd)"
    unfolding jac_loop_no_decode_eq by (auto split: sum.splits)
  have pg: "pacc = fold (\<lambda>d p. Some (accumulate p (snd (gr (one_hot z d)))))
      [0..<latent_dim] (enc_grad wd)"
    by (rule jac_loop_params[OF lp])
  have ne: "0 < latent_dim \<longrightarrow> pacc \<noteq> None"
    unfolding pg by (rule impI, rule fold_Some) simp
  have g: "clean (grad (x_leaf wd)) ?xd \<longrightarrow>
      acc = (if latent_dim = 0 then grad (x_leaf wd) else Some (zero4 ?xd))"
  proof
    assume cl: "clean (grad (x_leaf wd)) ?xd"
    from jac_loop_result[OF cl lp] show
      "acc = (if latent_dim = 0 then grad (x_leaf wd) else Some (zero4 ?xd))" by simp
  qed
  have 1: "data (x_leaf wd') = ?xd" and 2: "requires_grad (x_leaf wd')"
    and 3: "grad (x_leaf wd') = acc" and 4: "enc_grad wd' = pacc"
    and 5: "enc_state wd' = es'" and 6: "dec_state wd' = ds'"
    using w by simp_all
  show ?thesis unfolding 1 3 4 5 6 using 2 g pg ne ds by (simp add: en)
qed

theorem find_jacobian_frame_witness:
  "find_jacobian 2 toy_dec toy_enc toy_world =
     Inr ([[[[[3, 7]]]]],
          \<lparr>enc_state = 1, enc_grad = Some [2, 2], dec_state = 2,
           x_leaf = \<lparr>data = [[[[2]]]], requires_grad = True, grad = Some [[[[0]]]]\<rparr>\<rparr>)
   \<and> clean (grad (x_leaf toy_world)) (data (x_leaf toy_world))
   \<and> (0 :: nat) < 2
   \<and> data (x_leaf toy_world) = [[[[2]]]]
   \<and> zero4 (data (x_leaf toy_world)) = [[[[0]]]]
   \<and> fold (\<lambda>d p. Some (accumulate p
           (snd (snd (fst (toy_enc (enc_state toy_world) (data (x_leaf toy_world))))
              (one_hot (fst (fst (toy_enc (enc_state toy_world) (data (x_leaf toy_world))))) d)))))
        [0..<2] (enc_grad toy_world) = Some [2, 2]
   \<and> snd (toy_enc (enc_state toy_world) (data (x_leaf toy_world))) = 1
   \<and> fold (\<lambda>d s. snd (toy_dec s
           (fst (fst (toy_enc (enc_state toy_world) (data (x_leaf toy_world)))))))
        [0..<2] (dec_state toy_world) = 2"
proof -
  note t = find_jacobian_frame[OF toy_run]
  have p: "(0 :: nat) < 2" by simp
  have a: "data (x_leaf toy_world) = [[[[2]]]]"
    using t[THEN conjunct1] by simp
  have c: "zero4 (data (x_leaf toy_world)) = [[[[0]]]]"
    using t[THEN conjunct2, THEN conjunct2, THEN conjunct1] toy_clean by simp
  have d: "fold (\<lambda>d p. Some (accumulate p
           (snd (snd (fst (toy_enc (enc_state toy_world) (data (x_leaf toy_world))))
              (one_hot (fst (fst (toy_enc (enc_state toy_world) (data (x_leaf toy_world))))) d)))))
        [0..<2] (enc_grad toy_world) = Some [2, 2]"
    using t[THEN conjunct2, THEN conjunct2, THEN conjunct2, THEN conjunct1]
    by (simp only: world.simps)
  have b: "snd (toy_enc (enc_state toy_world) (data (x_leaf toy_world))) = 1"
    using t[THEN conjunct2, THEN conjunct2, THEN conjunct2, THEN conjunct2, THEN conjunct2,
        THEN conjunct1]
    by (simp only: world.simps)
  have e: "fold (\<lambda>d s. snd (toy_dec s
           (fst (fst (toy_enc (enc_state toy_world) (data (x_leaf toy_world)))))))
        [0..<2] (dec_state toy_world) = 2"
    using t[THEN conjunct2, THEN conjunct2, THEN conjunct2, THEN conjunct2, THEN conjunct2,
        THEN conjunct2]
    by (simp only: world.simps)
  show ?thesis
    by (intro conjI) (rule toy_run toy_clean p a c d b e)+
qed

section \<open>What the Jacobian differentiates\<close>

lemma one_hot_row:
  "m < length z \<Longrightarrow> one_hot z d ! m = (replicate (width z) 0)[d := 1]"
  by (simp add: one_hot_def zeros2_def)

lemma length_one_hot: "length (one_hot z d) = length z"
  by (simp add: one_hot_def zeros2_def)

lemma seeded_one_hot:
  assumes "d < width z"
  shows "seeded (one_hot z d) y = (\<Sum>m<length z. y ! m ! d)"
proof -
  have "(\<Sum>k<length (one_hot z d ! m). one_hot z d ! m ! k * y ! m ! k) = y ! m ! d"
    if m: "m < length z" for m
  proof -
    have "(\<Sum>k<width z. (replicate (width z) (0::real))[d := 1] ! k * y ! m ! k)
        = (\<Sum>k<width z. if k = d then y ! m ! d else 0)"
      by (rule sum.cong) (auto simp: nth_list_update)
    also have "\<dots> = y ! m ! d" using assms by (simp add: sum.delta)
    finally show ?thesis by (simp add: one_hot_row[OF m])
  qed
  then show ?thesis by (simp add: seeded_def length_one_hot)
qed

lemma map_length_one_hot:
  assumes "is_tensor2 z"
  shows "map length (one_hot z d) = map length z"
proof -
  have "map length z = replicate (length z) (width z)"
    using assms by (auto simp: is_tensor2_def list_eq_iff_nth_eq)
  moreover have "map length (one_hot z d) = replicate (length z) (width z)"
    by (simp add: one_hot_def zeros2_def comp_def)
  ultimately show ?thesis by simp
qed

lemma find_jacobian_dims:
  assumes fj: "find_jacobian latent_dim dec enc wd = Inr (jac, wd')"
    and en: "enc (enc_state wd) (data (x_leaf wd)) = ((z, gr), es')"
    and cl: "clean (grad (x_leaf wd)) (data (x_leaf wd))"
    and d: "d < latent_dim"
  shows "d < width z"
proof -
  from find_jacobian_unfold[OF fj en] obtain acc pacc ds' where
    lp: "jac_loop dec z gr (data (x_leaf wd)) [0..<latent_dim]
          (grad (x_leaf wd), enc_grad wd, zeros5 (dims4 (data (x_leaf wd))) (width z),
           dec_state wd)
         = Inr (acc, pacc, jac, ds')" by blast
  from jac_loop_result[OF cl lp] d show ?thesis by simp
qed

lemma toy_tensor2: "is_tensor2 [[6, 14]]"
  by (simp add: is_tensor2_def width_def)

lemma toy_autograd_sound:
  "autograd_sound (\<lambda>xd. fst (fst (toy_enc (enc_state toy_world) xd)))
     (data (x_leaf toy_world)) (toy_graph [[[[2]]]])"
  unfolding autograd_sound_def
proof (intro allI impI)
  fix seed :: matrix and n c h w
  assume sh: "map length seed
      = map length (fst (fst (toy_enc (enc_state toy_world) (data (x_leaf toy_world)))))"
    and ib: "in_bounds (data (x_leaf toy_world)) n c h w"
  from ib have n: "n = 0" by (simp add: in_bounds_def toy_world_def)
  from ib have c: "c = 0" by (simp add: in_bounds_def toy_world_def n)
  from ib have h: "h = 0" by (simp add: in_bounds_def toy_world_def n c)
  from ib have w: "w = 0" by (simp add: in_bounds_def toy_world_def n c h)
  note i = n c h w
  from sh have "map length seed = [2]" by (simp add: toy_enc_def toy_world_def)
  then obtain r where s: "seed = [r]" and r: "length r = 2"
    by (cases seed) auto
  have f: "(\<lambda>t. seeded seed (fst (fst (toy_enc (enc_state toy_world)
              (upd4 (data (x_leaf toy_world)) n c h w t)))))
      = (\<lambda>t. r ! 0 * (3 * t) + r ! 1 * (7 * t))"
    by (rule ext)
      (simp add: seeded_def s r i toy_enc_def toy_world_def upd4_def lessThan_Suc numeral_2_eq_2)
  have "((\<lambda>t. r ! 0 * (3 * t) + r ! 1 * (7 * t)) has_field_derivative 3 * r ! 0 + 7 * r ! 1)
      (at 2)"
    by (auto intro!: derivative_eq_intros)
  then show "((\<lambda>t. seeded seed (fst (fst (toy_enc (enc_state toy_world)
              (upd4 (data (x_leaf toy_world)) n c h w t))))) has_field_derivative
      fst (toy_graph [[[[2]]]] seed) ! n ! c ! h ! w)
      (at (data (x_leaf toy_world) ! n ! c ! h ! w))"
    unfolding f by (simp add: s i toy_world_def toy_graph_def)
qed

text \<open>
  Claim C1, as stated, fails: \<^verbatim>\<open>find_jacobian\<close> back-propagates from the output
  \<^verbatim>\<open>z\<close> of the encoder to the input \<^verbatim>\<open>x\<close>; the decoder takes no part in the gradient.
  On the small pair the entry for latent dimension 0 is 3, the derivative of the
  encoder, while the decoded pixel has derivative 5 with respect to that latent
  coordinate at the latent code \<open>(6, 14)\<close> of the sample.
\<close>

theorem find_jacobian_decoder_derivative_counterexample:
  "find_jacobian 2 toy_dec toy_enc toy_world =
     Inr ([[[[[3, 7]]]]],
          \<lparr>enc_state = 1, enc_grad = Some [2, 2], dec_state = 2,
           x_leaf = \<lparr>data = [[[[2]]]], requires_grad = True, grad = Some [[[[0]]]]\<rparr>\<rparr>)
   \<and> fst (fst (toy_enc 0 [[[[2]]]])) = [[6, 14]]
   \<and> (pixel_of_latent toy_dec 0 [[6, 14]] 0 0 0 0 0 has_field_derivative 5) (at 6)
   \<and> \<not> (pixel_of_latent toy_dec 0 [[6, 14]] 0 0 0 0 0 has_field_derivative
          [[[[[3, 7]]]]] ! 0 ! 0 ! 0 ! 0 ! 0) (at 6)"
proof -
  have f: "pixel_of_latent toy_dec 0 [[6, 14]] 0 0 0 0 0 = (\<lambda>t. 5 * t)"
    by (rule ext) (simp add: pixel_of_latent_def toy_dec_def)
  have d5: "((\<lambda>t::real. 5 * t) has_field_derivative 5) (at 6)"
    by (auto intro!: derivative_eq_intros)
  have n3: "\<not> ((\<lambda>t::real. 5 * t) has_field_derivative 3) (at 6)"
  proof
    assume "((\<lambda>t::real. 5 * t) has_field_derivative 3) (at 6)"
    from DERIV_unique[OF this d5] show False by simp
  qed
  have e: "fst (fst (toy_enc 0 [[[[2]]]])) = [[6, 14]]" by (simp add: toy_enc_def)
  show ?thesis using toy_run e d5 n3 by (simp add: f)
qed

text \<open>
  Claim C1, amended.  When the graph of the forward pass of the encoder is sound, entry
  \<open>[c, h, w, d]\<close> of the Jacobian of sample \<open>n\<close> is the partial derivative of latent
  coordinate \<open>d\<close> of the output of the encoder, summed over the batch, with respect to
  pixel \<open>(c, h, w)\<close> of sample \<open>n\<close>, at the input batch.
\<close>

theorem find_jacobian_entry_is_encoder_derivative:
  assumes fj: "find_jacobian latent_dim dec enc wd = Inr (jac, wd')"
    and en: "enc (enc_state wd) (data (x_leaf wd)) = ((z, gr), es')"
    and cl: "clean (grad (x_leaf wd)) (data (x_leaf wd))"
    and te: "is_tensor4 (data (x_leaf wd))"
    and t2: "is_tensor2 z"
    and ag: "autograd_sound (\<lambda>xd. fst (fst (enc (enc_state wd) xd))) (data (x_leaf wd)) gr"
    and ib: "in_bounds (data (x_leaf wd)) n c h w"
    and d: "d < latent_dim"
  shows "(latent_of_pixel enc (enc_state wd) (data (x_leaf wd)) n c h w d
            has_field_derivative jac ! n ! c ! h ! w ! d)
           (at (data (x_leaf wd) ! n ! c ! h ! w))"
proof -
  let ?xd = "data (x_leaf wd)"
  let ?f = "\<lambda>xd. fst (fst (enc (enc_state wd) xd))"
  have z: "?f ?xd = z" by (simp add: en)
  have dz: "d < width z" by (rule find_jacobian_dims[OF fj en cl d])
  have sh: "map length (one_hot z d) = map length (?f ?xd)"
    using map_length_one_hot[OF t2] by (simp add: z)
  from ag sh ib have
    "((\<lambda>t. seeded (one_hot z d) (?f (upd4 ?xd n c h w t))) has_field_derivative
        fst (gr (one_hot z d)) ! n ! c ! h ! w) (at (?xd ! n ! c ! h ! w))"
    unfolding autograd_sound_def by blast
  moreover have "(\<lambda>t. seeded (one_hot z d) (?f (upd4 ?xd n c h w t)))
      = latent_of_pixel enc (enc_state wd) ?xd n c h w d"
    by (rule ext) (simp add: seeded_one_hot[OF dz] latent_of_pixel_def en)
  moreover have "jac ! n ! c ! h ! w ! d = fst (gr (one_hot z d)) ! n ! c ! h ! w"
    by (rule find_jacobian_entry[OF fj en cl te ib d])
  ultimately show ?thesis by simp
qed

theorem find_jacobian_entry_is_encoder_derivative_witness:
  "find_jacobian 2 toy_dec toy_enc toy_world =
     Inr ([[[[[3, 7]]]]],
          \<lparr>enc_state = 1, enc_grad = Some [2, 2], dec_state = 2,
           x_leaf = \<lparr>data = [[[[2]]]], requires_grad = True, grad = Some [[[[0]]]]\<rparr>\<rparr>)
   \<and> toy_enc (enc_state toy_world) (data (x_leaf toy_world)) =
     (([[6, 14]], toy_graph [[[[2]]]]), 1)
   \<and> clean (grad (x_leaf toy_world)) (data (x_leaf toy_world))
   \<and> is_tensor4 (data (x_leaf toy_world))
   \<and> is_tensor2 [[6, 14]]
   \<and> autograd_sound (\<lambda>xd. fst (fst (toy_enc (enc_state toy_world) xd)))
       (data (x_leaf toy_world)) (toy_graph [[[[2]]]])
   \<and> in_bounds (data (x_leaf toy_world)) 0 0 0 0
   \<and> (1::nat) < 2
   \<and> (latent_of_pixel toy_enc 0 [[[[2]]]] 0 0 0 0 1 has_field_derivative 7) (at 2)"
proof -
  have ib: "in_bounds (data (x_leaf toy_world)) 0 0 0 0"
    by (simp add: in_bounds_def toy_world_def)
  have d: "(1::nat) < 2" by simp
  have c: "(latent_of_pixel toy_enc 0 [[[[2]]]] 0 0 0 0 1 has_field_derivative 7) (at 2)"
    using find_jacobian_entry_is_encoder_derivative[OF toy_run toy_enc_call toy_clean
        toy_tensor toy_tensor2 toy_autograd_sound ib d]
    by (simp add: toy_world_def)
  show ?thesis
    by (intro conjI)
      (rule toy_run toy_enc_call toy_clean toy_tensor toy_tensor2 toy_autograd_sound ib d c)+
qed

section \<open>The figure of one sample\<close>

lemma length_linspace: "length (linspace a b 5) = 5"
  by (simp add: linspace_def)

lemma latent_points_length:
  "latent_points z coeff dir = Inr pts \<Longrightarrow> length pts = length coeff"
  by (auto simp add: latent_points_def split: if_splits)

lemma imshow_result:
  "imshow ax r c img = Inr ax' \<Longrightarrow>
     r < length ax \<and> c < length (ax ! r) \<and> ax' = ax[r := (ax ! r)[c := Some img]]"
  by (auto simp add: imshow_def split: if_splits)

lemma show_images_result:
  "show_images ax d c imgs = Inr ax' \<Longrightarrow>
     ax' = ax[d := take c (ax ! d) @ map Some imgs @ drop (c + length imgs) (ax ! d)] \<and>
     (imgs \<noteq> [] \<longrightarrow> d < length ax \<and> c + length imgs \<le> length (ax ! d))"
proof (induction imgs arbitrary: ax c ax')
  case Nil
  then show ?case by simp
next
  case (Cons img imgs)
  from Cons.prems obtain ax1 where i: "imshow ax d c img = Inr ax1"
    and s: "show_images ax1 d (Suc c) imgs = Inr ax'"
    by (auto split: sum.splits)
  from imshow_result[OF i] have d: "d < length ax" and c: "c < length (ax ! d)"
    and ax1: "ax1 = ax[d := (ax ! d)[c := Some img]]" by simp_all
  have r1: "ax1 ! d = (ax ! d)[c := Some img]" using ax1 d by simp
  from Cons.IH[OF s] have a: "ax' = ax1[d := take (Suc c) (ax1 ! d) @ map Some imgs @
      drop (Suc c + length imgs) (ax1 ! d)]"
    and b: "imgs \<noteq> [] \<longrightarrow> Suc c + length imgs \<le> length (ax1 ! d)" by simp_all
  have t: "take (Suc c) (ax1 ! d) = take c (ax ! d) @ [Some img]"
    using c by (simp add: r1 take_Suc_conv_app_nth)
  have dr: "drop (Suc c + length imgs) (ax1 ! d) = drop (c + length (img # imgs)) (ax ! d)"
    by (simp add: r1)
  have "ax' = ax[d := take c (ax ! d) @ map Some (img # imgs) @
      drop (c + length (img # imgs)) (ax ! d)]"
    unfolding a t dr by (simp add: ax1)
  moreover have "c + length (img # imgs) \<le> length (ax ! d)"
    using b c by (cases "imgs = []") (simp_all add: r1)
  ultimately show ?case using d by simp
qed

lemma direction_step_result:
  assumes st: "direction_step dec z v xn d (ax, ds) = Inr (ax', ds')"
    and len: "keeps_batch_size dec"
    and row: "length (ax ! d) = 11"
  shows "\<exists>dir pos neg ds1.
     direction v d = Inr dir \<and>
     latent_points z (linspace 0 coeff_range 5) dir = Inr pos \<and>
     latent_points z (linspace (- coeff_range) 0 5) dir = Inr neg \<and>
     d < length ax \<and>
     ax' = ax[d := map Some (fst (dec ds1 neg)) @ [Some xn] @ map Some (fst (dec ds pos))]"
proof -
  from st obtain ax1 dir pos ax2 neg where
    i: "imshow ax d 5 xn = Inr ax1" and
    dir: "direction v d = Inr dir" and
    pos: "latent_points z (linspace 0 coeff_range 5) dir = Inr pos" and
    s1: "show_images ax1 d 6 (fst (dec ds pos)) = Inr ax2" and
    neg: "latent_points z (linspace (- coeff_range) 0 5) dir = Inr neg" and
    s2: "show_images ax2 d 0 (fst (dec (snd (dec ds pos)) neg)) = Inr ax'"
    by (auto simp add: direction_step_def split: sum.splits prod.splits)
  let ?P = "fst (dec ds pos)"
  let ?N = "fst (dec (snd (dec ds pos)) neg)"
  have lp: "length ?P = 5"
    using len latent_points_length[OF pos] length_linspace by (simp add: keeps_batch_size_def)
  have ln: "length ?N = 5"
    using len latent_points_length[OF neg] length_linspace by (simp add: keeps_batch_size_def)
  from imshow_result[OF i] have d: "d < length ax"
    and ax1: "ax1 = ax[d := (ax ! d)[5 := Some xn]]" by simp_all
  have r1: "ax1 ! d = (ax ! d)[5 := Some xn]" using ax1 d by simp
  from show_images_result[OF s1]
  have ax2: "ax2 = ax1[d := take 6 (ax1 ! d) @ map Some ?P @ drop (6 + length ?P) (ax1 ! d)]"
    by simp
  have r2: "ax2 ! d = take 6 (ax1 ! d) @ map Some ?P" using ax2 d ax1 row lp by (simp add: r1)
  from show_images_result[OF s2]
  have ax3: "ax' = ax2[d := take 0 (ax2 ! d) @ map Some ?N @ drop (0 + length ?N) (ax2 ! d)]"
    by simp
  have t6: "take 6 (ax1 ! d) = take 5 (ax ! d) @ [Some xn]"
  proof -
    have "take (Suc 5) ((ax ! d)[5 := Some xn])
        = take 5 ((ax ! d)[5 := Some xn]) @ [((ax ! d)[5 := Some xn]) ! 5]"
      using row by (intro take_Suc_conv_app_nth) simp
    then show ?thesis using row by (simp add: r1)
  qed
  have "drop 5 (ax2 ! d) = [Some xn] @ map Some ?P"
    unfolding r2 t6 using row by simp
  then have "ax' = ax2[d := map Some ?N @ [Some xn] @ map Some ?P]"
    using ax3 ln by simp
  then have "ax' = ax[d := map Some ?N @ [Some xn] @ map Some ?P]"
    by (simp add: ax2 ax1)
  then show ?thesis using dir pos neg d by blast
qed

lemma direction_loop_result:
  assumes lp: "direction_loop dec z v xn dirs (ax, ds) = Inr (ax', ds')"
    and len: "keeps_batch_size dec"
    and di: "distinct dirs"
    and rows: "\<forall>d \<in> set dirs. length (ax ! d) = 11"
  shows "length ax' = length ax \<and> (\<forall>d. d \<notin> set dirs \<longrightarrow> ax' ! d = ax ! d) \<and>
     (\<forall>d \<in> set dirs. d < length ax \<and> (\<exists>dir pos neg s1 s2.
        direction v d = Inr dir \<and>
        latent_points z (linspace 0 coeff_range 5) dir = Inr pos \<and>
        latent_points z (linspace (- coeff_range) 0 5) dir = Inr neg \<and>
        ax' ! d = map Some (fst (dec s1 neg)) @ [Some xn] @ map Some (fst (dec s2 pos))))"
  using lp di rows
proof (induction dirs arbitrary: ax ds)
  case Nil
  then show ?case by simp
next
  case (Cons d dirs)
  from Cons.prems(1) obtain ax1 ds1 where
    st: "direction_step dec z v xn d (ax, ds) = Inr (ax1, ds1)"
    and l: "direction_loop dec z v xn dirs (ax1, ds1) = Inr (ax', ds')"
    by (auto split: sum.splits)
  have row: "length (ax ! d) = 11" using Cons.prems(3) by simp
  from direction_step_result[OF st len row] obtain dir pos neg s1 where
    dir: "direction v d = Inr dir"
    and pos: "latent_points z (linspace 0 coeff_range 5) dir = Inr pos"
    and neg: "latent_points z (linspace (- coeff_range) 0 5) dir = Inr neg"
    and d: "d < length ax"
    and ax1: "ax1 = ax[d := map Some (fst (dec s1 neg)) @ [Some xn] @ map Some (fst (dec ds pos))]"
    by blast
  have nd: "d \<notin> set dirs" and di': "distinct dirs" using Cons.prems(2) by simp_all
  have rows1: "\<forall>e \<in> set dirs. length (ax1 ! e) = 11"
  proof
    fix e assume e: "e \<in> set dirs"
    with nd have "d \<noteq> e" by blast
    then have "ax1 ! e = ax ! e" by (simp add: ax1)
    then show "length (ax1 ! e) = 11" using Cons.prems(3) e by simp
  qed
  note ih = Cons.IH[OF l di' rows1]
  have l1: "length ax1 = length ax" by (simp add: ax1)
  have a: "length ax' = length ax" using ih l1 by simp
  have b: "\<forall>e. e \<notin> set (d # dirs) \<longrightarrow> ax' ! e = ax ! e"
  proof (intro allI impI)
    fix e assume e: "e \<notin> set (d # dirs)"
    then have "d \<noteq> e" and "e \<notin> set dirs" by simp_all
    then have "ax' ! e = ax1 ! e" and "ax1 ! e = ax ! e" using ih by (simp_all add: ax1)
    then show "ax' ! e = ax ! e" by simp
  qed
  have "ax' ! d = ax1 ! d" using ih nd by blast
  then have hd: "ax' ! d = map Some (fst (dec s1 neg)) @ [Some xn] @ map Some (fst (dec ds pos))"
    using d by (simp add: ax1)
  have c: "\<forall>e \<in> set (d # dirs). e < length ax \<and> (\<exists>dir pos neg s1 s2.
        direction v e = Inr dir \<and>
        latent_points z (linspace 0 coeff_range 5) dir = Inr pos \<and>
        latent_points z (linspace (- coeff_range) 0 5) dir = Inr neg \<and>
        ax' ! e = map Some (fst (dec s1 neg)) @ [Some xn] @ map Some (fst (dec s2 pos)))"
  proof
    fix e assume e: "e \<in> set (d # dirs)"
    show "e < length ax \<and> (\<exists>dir pos neg s1 s2.
        direction v e = Inr dir \<and>
        latent_points z (linspace 0 coeff_range 5) dir = Inr pos \<and>
        latent_points z (linspace (- coeff_range) 0 5) dir = Inr neg \<and>
        ax' ! e = map Some (fst (dec s1 neg)) @ [Some xn] @ map Some (fst (dec s2 pos)))"
    proof (cases "e = d")
      case True
      then show ?thesis using d dir pos neg hd by blast
    next
      case False
      with e have "e \<in> set dirs" by simp
      with ih l1 show ?thesis by simp
    qed
  qed
  from a b c show ?case by blast
qed

lemma render_sample_rows:
  assumes run: "render_sample svd latent_dim dec enc xd jac n (es, ds) = Inr (ax, es', ds')"
    and len: "keeps_batch_size dec"
  shows "length ax = 5 \<and>
     (\<forall>d<5. \<exists>m dir pos neg s1 s2.
        reshape (jac ! n) latent_dim = Inr m \<and>
        direction (snd (snd (svd m))) d = Inr dir \<and>
        latent_points (fst (fst (enc es xd)) ! n) (linspace 0 coeff_range 5) dir = Inr pos \<and>
        latent_points (fst (fst (enc es xd)) ! n) (linspace (- coeff_range) 0 5) dir = Inr neg \<and>
        ax ! d = map Some (fst (dec s1 neg)) @ [Some (xd ! n)] @ map Some (fst (dec s2 pos)))"
proof -
  obtain zs gr es1 where en: "enc es xd = ((zs, gr), es1)" by (metis prod.exhaust)
  from run en obtain m u s v where
    m: "reshape (jac ! n) latent_dim = Inr m" and sv: "svd m = (u, s, v)"
    and lp: "direction_loop dec (zs ! n) v (xd ! n) [0..<num_directions] (subplots 5 11, ds)
        = Inr (ax, ds')"
    by (auto simp: render_sample_def item_def split: sum.splits prod.splits if_splits)
  have rows: "\<forall>d \<in> set [0..<num_directions]. length (subplots 5 11 ! d) = 11"
    by (simp add: subplots_def num_directions_def)
  from direction_loop_result[OF lp len _ rows]
  have a: "length ax = length (subplots 5 11)"
    and c: "\<forall>d \<in> set [0..<num_directions]. \<exists>dir pos neg s1 s2.
        direction v d = Inr dir \<and>
        latent_points (zs ! n) (linspace 0 coeff_range 5) dir = Inr pos \<and>
        latent_points (zs ! n) (linspace (- coeff_range) 0 5) dir = Inr neg \<and>
        ax ! d = map Some (fst (dec s1 neg)) @ [Some (xd ! n)] @ map Some (fst (dec s2 pos))"
    by simp_all
  have "length ax = 5" using a by (simp add: subplots_def)
  moreover have "\<forall>d<5. \<exists>m dir pos neg s1 s2.
        reshape (jac ! n) latent_dim = Inr m \<and>
        direction (snd (snd (svd m))) d = Inr dir \<and>
        latent_points (fst (fst (enc es xd)) ! n) (linspace 0 coeff_range 5) dir = Inr pos \<and>
        latent_points (fst (fst (enc es xd)) ! n) (linspace (- coeff_range) 0 5) dir = Inr neg \<and>
        ax ! d = map Some (fst (dec s1 neg)) @ [Some (xd ! n)] @ map Some (fst (dec s2 pos))"
    using c m by (simp add: en sv num_directions_def)
  ultimately show ?thesis by blast
qed

section \<open>Running the pair with five latent dimensions\<close>

lemma linspace_pos: "linspace 0 coeff_range 5 = [0, 5 / 2, 5, 15 / 2, 10]"
  by (simp add: linspace_def coeff_range_def upt_rec[of _ "numeral _"] upt_rec[of _ "Suc _"])

lemma linspace_neg: "linspace (- coeff_range) 0 5 = [- 10, - 15 / 2, - 5, - 5 / 2, 0]"
  by (simp add: linspace_def coeff_range_def upt_rec[of _ "numeral _"] upt_rec[of _ "Suc _"])

lemma upt5: "[0..<5] = [0, Suc 0, 2, 3, 4]"
  by (simp add: upt_rec[of _ "numeral _"] upt_rec[of _ "Suc _"])

lemma reshape5: "reshape [[m5]] 5 = Inr m5"
  by (simp add: reshape_def m5_def Let_def upt5)

lemma enc5_run: "enc5 0 x5 = (([[3, 4, 0, 0, 0]], graph5 x5), Suc 0)"
  by (simp add: enc5_def x5_def m5_def upt5)

lemma directions5:
  "direction v5 0 = Inr [3 / 5, - 12 / 25, 16 / 25, 0, 0]"
  "direction v5 (Suc 0) = Inr [4 / 5, 9 / 25, - 12 / 25, 0, 0]"
  "direction v5 2 = Inr [0, 4 / 5, 3 / 5, 0, 0]"
  "direction v5 3 = Inr [0, 0, 0, 1, 0]"
  "direction v5 4 = Inr [0, 0, 0, 0, 1]"
  by (simp_all add: direction_def col_def transp_def v5_def width_def upt5)

lemma list_update_numeral:
  "(x # xs)[numeral k := v] = x # xs[pred_numeral k := v]"
  by (simp add: numeral_eq_Suc)

lemma subplots_5_11:
  "subplots 5 11 =
     [[None, None, None, None, None, None, None, None, None, None, None],
      [None, None, None, None, None, None, None, None, None, None, None],
      [None, None, None, None, None, None, None, None, None, None, None],
      [None, None, None, None, None, None, None, None, None, None, None],
      [None, None, None, None, None, None, None, None, None, None, None]]"
  by (simp add: subplots_def eval_nat_numeral)

lemma loop5_toy:
  "direction_loop toy_dec [3, 4, 0, 0, 0] v5 [[[1, 0, 0, 0, 0]]] [0, Suc 0, 2, 3, 4]
     (subplots 5 11, 0) = Inr (grid5, 10)"
  by (simp add: subplots_5_11 direction_step_def imshow_def directions5
        latent_points_def linspace_pos linspace_neg toy_dec_def list_update_numeral grid5_def)

lemma loop5_bn:
  "direction_loop bn_dec [3, 4, 0, 0, 0] v5 [[[1, 0, 0, 0, 0]]] [0, Suc 0, 2, 3, 4]
     (subplots 5 11, 0) = Inr (grid5_bn, 10)"
  by (simp add: subplots_5_11 direction_step_def imshow_def directions5
        latent_points_def linspace_pos linspace_neg bn_dec_def list_update_numeral grid5_bn_def)

lemma item5:
  "item x5 0 = Inr [[[1, 0, 0, 0, 0]]]"
  "item jac5 0 = Inr [[m5]]"
  "item [[3, 4, 0, 0, 0 :: real]] 0 = Inr [3, 4, 0, 0, 0]"
  by (simp_all add: item_def x5_def jac5_def)

lemma run5_toy:
  "render_sample svd5 5 toy_dec enc5 x5 jac5 0 (0, 0) = Inr (grid5, Suc 0, 10)"
  unfolding render_sample_def
  by (simp only: prod.case item5 sum.case reshape5 svd5_def enc5_run num_directions_def upt5
        loop5_toy)

lemma run5_bn:
  "render_sample svd5 5 bn_dec enc5 x5 jac5 0 (0, 0) = Inr (grid5_bn, Suc 0, 10)"
  unfolding render_sample_def
  by (simp only: prod.case item5 sum.case reshape5 svd5_def enc5_run num_directions_def upt5
        loop5_bn)

lemma toy_dec_keeps_batch_size: "keeps_batch_size toy_dec"
  by (simp add: keeps_batch_size_def toy_dec_def)

lemma toy_dec_decodes_each_code: "decodes_each_code toy_dec (\<lambda>z. [[[5 * z ! 0]]])"
  by (simp add: decodes_each_code_def toy_dec_def)

section \<open>The layout of the figure\<close>

text \<open>
  Claim C6.  The figure of a sample has 5 rows of 11 cells.  In every row \<open>d\<close>, cells 0
  to 4 hold, in this order, the images that the decoder returns for the latent points of
  the coefficients \<open>-10, -7.5, -5, -2.5, 0\<close>, cell 5 holds the input sample, and cells 6
  to 10 hold the images that the decoder returns for the latent points of the
  coefficients \<open>0, 2.5, 5, 7.5, 10\<close>; the latent points are those of the latent code
  of the sample and the direction of row \<open>d\<close>.  The decoder is taken to return one image
  for every latent code it is given.
\<close>

theorem render_sample_grid:
  assumes run: "render_sample svd latent_dim dec enc xd jac n (es, ds) = Inr (ax, es', ds')"
    and len: "keeps_batch_size dec"
  shows "length ax = 5 \<and>
     (\<forall>d<5. length (ax ! d) = 11 \<and> ax ! d ! 5 = Some (xd ! n) \<and>
        (\<exists>m dir neg pos s1 s2.
           reshape (jac ! n) latent_dim = Inr m \<and>
           direction (snd (snd (svd m))) d = Inr dir \<and>
           latent_points (fst (fst (enc es xd)) ! n) (linspace (- coeff_range) 0 5) dir
             = Inr neg \<and>
           latent_points (fst (fst (enc es xd)) ! n) (linspace 0 coeff_range 5) dir
             = Inr pos \<and>
           take 5 (ax ! d) = map Some (fst (dec s1 neg)) \<and>
           drop 6 (ax ! d) = map Some (fst (dec s2 pos)))) \<and>
     linspace (- coeff_range) 0 5 = [- 10, - 15 / 2, - 5, - 5 / 2, 0] \<and>
     linspace 0 coeff_range 5 = [0, 5 / 2, 5, 15 / 2, 10]"
proof (intro conjI allI impI)
  note r = render_sample_rows[OF run len]
  show "length ax = 5" using r by blast
  show "linspace (- coeff_range) 0 5 = [- 10, - 15 / 2, - 5, - 5 / 2, 0]" by (rule linspace_neg)
  show "linspace 0 coeff_range 5 = [0, 5 / 2, 5, 15 / 2, 10]" by (rule linspace_pos)
  fix d :: nat assume d: "d < 5"
  let ?z = "fst (fst (enc es xd)) ! n"
  from r d obtain m dir pos neg s1 s2 where
    m: "reshape (jac ! n) latent_dim = Inr m"
    and dir: "direction (snd (snd (svd m))) d = Inr dir"
    and pos: "latent_points ?z (linspace 0 coeff_range 5) dir = Inr pos"
    and neg: "latent_points ?z (linspace (- coeff_range) 0 5) dir = Inr neg"
    and row: "ax ! d = map Some (fst (dec s1 neg)) @ [Some (xd ! n)] @ map Some (fst (dec s2 pos))"
    by blast
  have ln: "length (fst (dec s1 neg)) = 5"
    using len latent_points_length[OF neg] length_linspace by (simp add: keeps_batch_size_def)
  have lp: "length (fst (dec s2 pos)) = 5"
    using len latent_points_length[OF pos] length_linspace by (simp add: keeps_batch_size_def)
  show "length (ax ! d) = 11" by (simp add: row ln lp)
  show "ax ! d ! 5 = Some (xd ! n)" using ln by (simp add: row nth_append)
  have t: "take 5 (ax ! d) = map Some (fst (dec s1 neg))" using ln by (simp add: row)
  have dr: "drop 6 (ax ! d) = map Some (fst (dec s2 pos))" using ln by (simp add: row)
  show "\<exists>m dir neg pos s1 s2.
           reshape (jac ! n) latent_dim = Inr m \<and>
           direction (snd (snd (svd m))) d = Inr dir \<and>
           latent_points (fst (fst (enc es xd)) ! n) (linspace (- coeff_range) 0 5) dir
             = Inr neg \<and>
           latent_points (fst (fst (enc es xd)) ! n) (linspace 0 coeff_range 5) dir
             = Inr pos \<and>
           take 5 (ax ! d) = map Some (fst (dec s1 neg)) \<and>
           drop 6 (ax ! d) = map Some (fst (dec s2 pos))"
    using m dir neg pos t dr by blast
qed

theorem render_sample_grid_witness:
  "render_sample svd5 5 toy_dec enc5 x5 jac5 0 (0, 0) = Inr (grid5, Suc 0, 10)
   \<and> keeps_batch_size toy_dec
   \<and> (0 :: nat) < 5
   \<and> length grid5 = 5
   \<and> length (grid5 ! 0) = 11
   \<and> grid5 ! 0 ! 5 = Some (x5 ! 0)"
proof -
  note t = render_sample_grid[OF run5_toy toy_dec_keeps_batch_size]
  have p: "(0 :: nat) < 5" by simp
  have a: "length grid5 = 5" by (rule conjunct1[OF t])
  note r = t[THEN conjunct2, THEN conjunct1, rule_format, OF p]
  have b: "length (grid5 ! 0) = 11" by (rule conjunct1[OF r])
  have c: "grid5 ! 0 ! 5 = Some (x5 ! 0)" by (rule r[THEN conjunct2, THEN conjunct1])
  show ?thesis
    by (intro conjI) (rule run5_toy toy_dec_keeps_batch_size p a b c)+
qed

section \<open>The images at coefficient 0\<close>

lemma latent_points_nth:
  assumes "latent_points z coeff dir = Inr pts" and "k < length coeff"
  shows "latent_points z [coeff ! k] dir = Inr [pts ! k]"
  using assms by (auto simp: latent_points_def split: if_splits)

lemma latent_points_zero:
  assumes "latent_points z [0] dir = Inr [p]" and "length z \<noteq> 1"
  shows "p = z"
proof (cases "length dir = length z")
  case True
  then have "map2 (\<lambda>zi di. zi + 0 * di) z dir = z"
    by (induction z dir rule: list_induct2') simp_all
  with assms True show ?thesis by (simp add: latent_points_def)
next
  case False
  with assms show ?thesis by (auto simp: latent_points_def split: if_splits)
qed

lemma decodes_keeps_batch_size: "decodes_each_code dec f \<Longrightarrow> keeps_batch_size dec"
  by (simp add: decodes_each_code_def keeps_batch_size_def)

lemma coefficient_zero_cells:
  assumes run: "render_sample svd latent_dim dec enc xd jac n (es, ds) = Inr (ax, es', ds')"
    and dc: "decodes_each_code dec f"
    and d: "d < 5"
  shows "\<exists>dir p. latent_points (fst (fst (enc es xd)) ! n) [0] dir = Inr [p]
      \<and> ax ! d ! 4 = Some (f p) \<and> ax ! d ! 6 = Some (f p)"
proof -
  let ?z = "fst (fst (enc es xd)) ! n"
  from render_sample_rows[OF run decodes_keeps_batch_size[OF dc]] d
  obtain dir pos neg s1 s2 where
    pos: "latent_points ?z (linspace 0 coeff_range 5) dir = Inr pos"
    and neg: "latent_points ?z (linspace (- coeff_range) 0 5) dir = Inr neg"
    and row: "ax ! d = map Some (fst (dec s1 neg)) @ [Some (xd ! n)] @ map Some (fst (dec s2 pos))"
    by blast
  have ln: "length neg = 5" using latent_points_length[OF neg] length_linspace by simp
  have lp: "length pos = 5" using latent_points_length[OF pos] length_linspace by simp
  have n: "fst (dec s1 neg) = map f neg" and p: "fst (dec s2 pos) = map f pos"
    using dc by (simp_all add: decodes_each_code_def)
  have c4: "ax ! d ! 4 = Some (f (neg ! 4))" using ln by (simp add: row n nth_append)
  have c6: "ax ! d ! 6 = Some (f (pos ! 0))" using ln lp by (simp add: row n p nth_append)
  have "latent_points ?z [linspace (- coeff_range) 0 5 ! 4] dir = Inr [neg ! 4]"
    by (rule latent_points_nth[OF neg]) (simp add: length_linspace)
  then have n4: "latent_points ?z [0] dir = Inr [neg ! 4]" by (simp add: linspace_neg)
  have "latent_points ?z [linspace 0 coeff_range 5 ! 0] dir = Inr [pos ! 0]"
    by (rule latent_points_nth[OF pos]) (simp add: length_linspace)
  then have p0: "latent_points ?z [0] dir = Inr [pos ! 0]" by (simp add: linspace_pos)
  from n4 p0 have "pos ! 0 = neg ! 4" by simp
  with c4 c6 n4 show ?thesis by auto
qed




section \<open>Cells 4 and 6 of a row\<close>

text \<open>
  Claim C10, as stated, fails, for the same reason: the image in cell 4 is decoded in the
  batch of the coefficients \<open>-10, \<dots>, 0\<close> and the image in cell 6 in the batch of the
  coefficients \<open>0, \<dots>, 10\<close>, and the decoder of the script normalises with the
  statistics of the batch.  With the decoder \<open>bn_dec\<close> cells 4 and 6 of row 0 differ.
\<close>

theorem coefficient_zero_duplicated_counterexample:
  "render_sample svd5 5 bn_dec enc5 x5 jac5 0 (0, 0) = Inr (grid5_bn, Suc 0, 10)
   \<and> grid5_bn ! 0 ! 4 = Some [[[3]]]
   \<and> grid5_bn ! 0 ! 6 = Some [[[- 3]]]
   \<and> grid5_bn ! 0 ! 4 \<noteq> grid5_bn ! 0 ! 6"
  using run5_bn by (simp add: grid5_bn_def)

text \<open>
  Claim C10, amended.  Coefficient 0 is the last of the coefficients of cells 0 to 4 and
  the first of the coefficients of cells 6 to 10, the other four of each range being
  strictly negative and strictly positive.  When the decoder decodes every latent code on
  its own, cells 4 and 6 of every row hold the same image, which is the decode of the
  unmodified latent code of the sample when the latent space has more than one
  dimension.
\<close>

theorem coefficient_zero_duplicated:
  assumes run: "render_sample svd latent_dim dec enc xd jac n (es, ds) = Inr (ax, es', ds')"
    and dc: "decodes_each_code dec f"
  shows "(\<forall>d<5. ax ! d ! 4 = ax ! d ! 6 \<and> ax ! d ! 4 \<noteq> None \<and>
            (length (fst (fst (enc es xd)) ! n) \<noteq> 1 \<longrightarrow>
               ax ! d ! 4 = Some (f (fst (fst (enc es xd)) ! n))))
     \<and> linspace (- coeff_range) 0 5 ! 4 = 0
     \<and> linspace 0 coeff_range 5 ! 0 = 0
     \<and> (\<forall>k<4. linspace (- coeff_range) 0 5 ! k < 0)
     \<and> (\<forall>k<4. 0 < linspace 0 coeff_range 5 ! Suc k)"
proof (intro conjI allI impI)
  show "linspace (- coeff_range) 0 5 ! 4 = 0" by (simp add: linspace_neg)
  show "linspace 0 coeff_range 5 ! 0 = 0" by (simp add: linspace_pos)
next
  fix k :: nat assume "k < 4"
  then have k: "k = 0 \<or> k = 1 \<or> k = 2 \<or> k = 3" by arith
  show "linspace (- coeff_range) 0 5 ! k < 0" using k by (auto simp: linspace_neg)
  show "0 < linspace 0 coeff_range 5 ! Suc k" using k by (auto simp: linspace_pos)
next
  fix d :: nat assume d: "d < 5"
  let ?z = "fst (fst (enc es xd)) ! n"
  from coefficient_zero_cells[OF run dc d] obtain dir p where
    p: "latent_points ?z [0] dir = Inr [p]"
    and c: "ax ! d ! 4 = Some (f p)" "ax ! d ! 6 = Some (f p)" by blast
  show "ax ! d ! 4 = ax ! d ! 6" using c by simp
  show "ax ! d ! 4 \<noteq> None" using c by simp
  assume "length ?z \<noteq> 1"
  from latent_points_zero[OF p this] c show "ax ! d ! 4 = Some (f ?z)" by simp
qed

theorem coefficient_zero_duplicated_witness:
  "render_sample svd5 5 toy_dec enc5 x5 jac5 0 (0, 0) = Inr (grid5, Suc 0, 10)
   \<and> decodes_each_code toy_dec (\<lambda>z. [[[5 * z ! 0]]])
   \<and> (0 :: nat) < 5 \<and> (0 :: nat) < 4
   \<and> length (fst (fst (enc5 0 x5)) ! 0) \<noteq> 1
   \<and> grid5 ! 0 ! 4 = grid5 ! 0 ! 6
   \<and> grid5 ! 0 ! 4 = Some [[[5 * (fst (fst (enc5 0 x5)) ! 0) ! 0]]]
   \<and> linspace (- coeff_range) 0 5 ! 0 < 0
   \<and> 0 < linspace 0 coeff_range 5 ! Suc 0"
proof -
  have z: "length (fst (fst (enc5 0 x5)) ! 0) \<noteq> 1" by (simp add: enc5_run)
  have p: "(0 :: nat) < 5" and q: "(0 :: nat) < 4" by simp_all
  note t = coefficient_zero_duplicated[OF run5_toy toy_dec_decodes_each_code]
  note r = t[THEN conjunct1, rule_format, OF p]
  have a: "grid5 ! 0 ! 4 = grid5 ! 0 ! 6" by (rule conjunct1[OF r])
  have b: "grid5 ! 0 ! 4 = Some [[[5 * (fst (fst (enc5 0 x5)) ! 0) ! 0]]]"
    by (rule r[THEN conjunct2, THEN conjunct2, rule_format, OF z])
  have c: "linspace (- coeff_range) 0 5 ! 0 < 0"
    by (rule t[THEN conjunct2, THEN conjunct2, THEN conjunct2, THEN conjunct1, rule_format,
          OF q])
  have e: "0 < linspace 0 coeff_range 5 ! Suc 0"
    by (rule t[THEN conjunct2, THEN conjunct2, THEN conjunct2, THEN conjunct2, rule_format,
          OF q])
  show ?thesis
    by (intro conjI) (rule run5_toy toy_dec_decodes_each_code p q z a b c e)+
qed

section \<open>The Jacobian of the pair with five latent dimensions\<close>

lemma graph5_cols:
  "graph5 [[[[1, 0, 0, 0, 0]]]] (one_hot [[3, 4, 0, 0, 0]] 0) =
     ([[[[3, - 48 / 25, 48 / 25, 0, 0]]]],
      [1, 0, 0, 0, 0, 0, 0, 0, 0, 0, 0, 0, 0, 0, 0, 0, 0, 0, 0, 0, 0, 0, 0, 0, 0])"
  "graph5 [[[[1, 0, 0, 0, 0]]]] (one_hot [[3, 4, 0, 0, 0]] (Suc 0)) =
     ([[[[4, 36 / 25, - 36 / 25, 0, 0]]]],
      [0, 1, 0, 0, 0, 0, 0, 0, 0, 0, 0, 0, 0, 0, 0, 0, 0, 0, 0, 0, 0, 0, 0, 0, 0])"
  "graph5 [[[[1, 0, 0, 0, 0]]]] (one_hot [[3, 4, 0, 0, 0]] 2) =
     ([[[[0, 16 / 5, 9 / 5, 0, 0]]]],
      [0, 0, 1, 0, 0, 0, 0, 0, 0, 0, 0, 0, 0, 0, 0, 0, 0, 0, 0, 0, 0, 0, 0, 0, 0])"
  "graph5 [[[[1, 0, 0, 0, 0]]]] (one_hot [[3, 4, 0, 0, 0]] 3) =
     ([[[[0, 0, 0, 2, 0]]]],
      [0, 0, 0, 1, 0, 0, 0, 0, 0, 0, 0, 0, 0, 0, 0, 0, 0, 0, 0, 0, 0, 0, 0, 0, 0])"
  "graph5 [[[[1, 0, 0, 0, 0]]]] (one_hot [[3, 4, 0, 0, 0]] 4) =
     ([[[[0, 0, 0, 0, 1]]]],
      [0, 0, 0, 0, 1, 0, 0, 0, 0, 0, 0, 0, 0, 0, 0, 0, 0, 0, 0, 0, 0, 0, 0, 0, 0])"
  by (simp_all add: graph5_def m5_def one_hot_def zeros2_def width_def upt5
        list_update_numeral eval_nat_numeral)

lemma zeros5_x5:
  "zeros5 (dims4 [[[[1, 0, 0, 0, 0]]]]) 5 =
     [[[[[0, 0, 0, 0, 0], [0, 0, 0, 0, 0], [0, 0, 0, 0, 0], [0, 0, 0, 0, 0],
         [0, 0, 0, 0, 0]]]]]"
  by (simp add: zeros5_def dims4_def width_def eval_nat_numeral)

lemma one_code5:
  "one_code [[3, 4, 0, 0, 0]] 0 = Inr (one_hot [[3, 4, 0, 0, 0]] 0)"
  "one_code [[3, 4, 0, 0, 0]] (Suc 0) = Inr (one_hot [[3, 4, 0, 0, 0]] (Suc 0))"
  "one_code [[3, 4, 0, 0, 0]] 2 = Inr (one_hot [[3, 4, 0, 0, 0]] 2)"
  "one_code [[3, 4, 0, 0, 0]] 3 = Inr (one_hot [[3, 4, 0, 0, 0]] 3)"
  "one_code [[3, 4, 0, 0, 0]] 4 = Inr (one_hot [[3, 4, 0, 0, 0]] 4)"
  by (simp_all add: one_code_def width_def)

lemma jac5_run:
  "find_jacobian 5 toy_dec enc5 world5 =
     Inr (jac5,
          \<lparr>enc_state = Suc 0,
           enc_grad = Some [1, 1, 1, 1, 1, 0, 0, 0, 0, 0, 0, 0, 0, 0, 0, 0, 0, 0, 0, 0,
                            0, 0, 0, 0, 0],
           dec_state = 5,
           x_leaf = \<lparr>data = x5, requires_grad = True, grad = Some [[[[0, 0, 0, 0, 0]]]]\<rparr>\<rparr>)"
proof -
  have e: "enc5 0 [[[[1, 0, 0, 0, 0]]]] = (([[3, 4, 0, 0, 0]], graph5 [[[[1, 0, 0, 0, 0]]]]), Suc 0)"
    using enc5_run by (simp add: x5_def)
  have w: "width [[3, 4, 0, 0, 0 :: real]] = 5" by (simp add: width_def)
  show ?thesis
    unfolding find_jacobian_def Let_def world5_def x5_def
    by (simp add: e w zeros5_x5 upt5 one_code5 backward_def graph5_cols jac5_def m5_def
        toy_dec_def shape4_def add4_def zero4_def set_col_def accumulate_def
        list_update_numeral)
qed

section \<open>The direction of a row\<close>

lemma orthonormal_v5: "orthonormal_cols v5"
  by (simp add: orthonormal_cols_def v5_def width_def All_less_Suc lessThan_Suc)

lemma orthonormal_u5: "orthonormal_cols u5"
  by (simp add: orthonormal_cols_def u5_def width_def All_less_Suc lessThan_Suc)

lemma is_svd5: "is_svd m5 (svd5 m5)"
  unfolding is_svd_def svd5_def prod.case Let_def
proof (intro conjI)
  show "orthonormal_cols u5" by (rule orthonormal_u5)
  show "orthonormal_cols v5" by (rule orthonormal_v5)
  show "\<forall>i<length m5. \<forall>j<width m5.
      m5 ! i ! j = (\<Sum>l<min (length m5) (width m5). u5 ! i ! l * s5 ! l * v5 ! j ! l)"
    by (simp add: m5_def u5_def s5_def v5_def width_def All_less_Suc lessThan_Suc)
qed (simp_all add: m5_def u5_def s5_def v5_def width_def All_less_Suc)

lemma columns5:
  "col v5 0 = Inr [3 / 5, 4 / 5, 0, 0, 0]"
  "col v5 (Suc 0) = Inr [- 12 / 25, 9 / 25, 4 / 5, 0, 0]"
  by (simp_all add: col_def v5_def width_def)

text \<open>
  Claim C2 at the sample \<open>x5\<close>.  The flattened Jacobian of the sample, as
  \<^verbatim>\<open>find_jacobian\<close> returns it for the encoder \<open>enc5\<close>, is \<open>m5\<close>, and
  \<open>svd5\<close> returns a singular value decomposition of it with the singular values
  \<open>5, 4, 3, 2, 1\<close>.  The right-singular vectors are the columns of \<open>v5\<close>: the first is
  \<open>(3/5, 4/5, 0, 0, 0)\<close>, the second \<open>(-12/25, 9/25, 4/5, 0, 0)\<close>.  The directions
  that \<^verbatim>\<open>v.T[:, d]\<close> selects for rows 0 and 1 are \<open>(3/5, -12/25, 16/25, 0, 0)\<close> and
  \<open>(4/5, 9/25, -12/25, 0, 0)\<close>, which are rows 0 and 1 of \<open>v5\<close>; neither is a
  right-singular vector or the opposite of one.  The last image of row 1 of the figure
  is the decode of the latent code moved by 10 along row 1 of \<open>v5\<close>, the pixel 55; along
  the second right-singular vector it would be the pixel -9.
\<close>

theorem direction_is_row_of_v:
  "reshape (jac5 ! 0) 5 = Inr m5
   \<and> is_svd m5 (svd5 m5)
   \<and> snd (snd (svd5 m5)) = v5
   \<and> direction v5 0 = Inr [3 / 5, - 12 / 25, 16 / 25, 0, 0]
   \<and> col v5 0 = Inr [3 / 5, 4 / 5, 0, 0, 0]
   \<and> item v5 0 = Inr [3 / 5, - 12 / 25, 16 / 25, 0, 0]
   \<and> direction v5 (Suc 0) = Inr [4 / 5, 9 / 25, - 12 / 25, 0, 0]
   \<and> col v5 (Suc 0) = Inr [- 12 / 25, 9 / 25, 4 / 5, 0, 0]
   \<and> item v5 (Suc 0) = Inr [4 / 5, 9 / 25, - 12 / 25, 0, 0]
   \<and> direction v5 0 \<noteq> col v5 0
   \<and> direction v5 (Suc 0) \<noteq> col v5 (Suc 0)
   \<and> render_sample svd5 5 toy_dec enc5 x5 jac5 0 (0, 0) = Inr (grid5, Suc 0, 10)
   \<and> grid5 ! Suc 0 ! 10 = Some [[[55]]]
   \<and> fst (toy_dec 0 [map2 (\<lambda>zi di. zi + 10 * di) [3, 4, 0, 0, 0]
                          [- 12 / 25, 9 / 25, 4 / 5, 0, 0]]) ! 0 = [[[- 9]]]
   \<and> map_sum id fst (find_jacobian 5 toy_dec enc5 world5) = Inr jac5"
proof -
  have j: "map_sum id fst (find_jacobian 5 toy_dec enc5 world5) = Inr jac5"
    by (simp add: jac5_run)
  have r: "reshape (jac5 ! 0) 5 = Inr m5" using reshape5 by (simp add: jac5_def)
  have v: "snd (snd (svd5 m5)) = v5" by (simp add: svd5_def)
  have i: "item v5 0 = Inr [3 / 5, - 12 / 25, 16 / 25, 0, 0]"
    "item v5 (Suc 0) = Inr [4 / 5, 9 / 25, - 12 / 25, 0, 0]"
    by (simp_all add: item_def v5_def)
  have n: "direction v5 0 \<noteq> col v5 0" "direction v5 (Suc 0) \<noteq> col v5 (Suc 0)"
    by (simp_all add: directions5 columns5)
  have g: "grid5 ! Suc 0 ! 10 = Some [[[55]]]" by (simp add: grid5_def)
  have t: "fst (toy_dec 0 [map2 (\<lambda>zi di. zi + 10 * di) [3, 4, 0, 0, 0]
                          [- 12 / 25, 9 / 25, 4 / 5, 0, 0]]) ! 0 = [[[- 9]]]"
    by (simp add: toy_dec_def)
  show ?thesis
    by (intro conjI) (rule r is_svd5 v directions5 columns5 i n run5_toy g t j)+
qed

theorem direction_is_row_of_v_witness:
  "(0 :: nat) < length m5 \<and> (0 :: nat) < width m5
   \<and> m5 ! 0 ! 0 = (\<Sum>l<min (length m5) (width m5). u5 ! 0 ! l * s5 ! l * v5 ! 0 ! l)
   \<and> (0 :: nat) < width v5
   \<and> (\<Sum>k<length v5. v5 ! k ! 0 * v5 ! k ! 0) = (if (0 :: nat) = 0 then 1 else 0)"
proof -
  note t = direction_is_row_of_v[THEN conjunct2, THEN conjunct1]
  have p: "(0 :: nat) < length m5" and q: "(0 :: nat) < width m5" and r: "(0 :: nat) < width v5"
    by (simp_all add: m5_def v5_def width_def)
  from t have a: "\<forall>i<length m5. \<forall>j<width m5.
      m5 ! i ! j = (\<Sum>l<min (length m5) (width m5). u5 ! i ! l * s5 ! l * v5 ! j ! l)"
    and o: "orthonormal_cols v5"
    unfolding is_svd_def svd5_def Let_def prod.case by blast+
  have b: "m5 ! 0 ! 0 = (\<Sum>l<min (length m5) (width m5). u5 ! 0 ! l * s5 ! l * v5 ! 0 ! l)"
    by (rule a[rule_format, OF p q])
  have c: "(\<Sum>k<length v5. v5 ! k ! 0 * v5 ! k ! 0) = (if (0 :: nat) = 0 then 1 else 0)"
    by (rule o[unfolded orthonormal_cols_def, rule_format, OF r r])
  show ?thesis
    by (intro conjI) (rule p q b r c)+
qed

section \<open>Orthonormal directions\<close>

lemma orth_rows:
  fixes a :: "nat \<Rightarrow> nat \<Rightarrow> real"
  assumes on: "\<And>i j. i < Z \<Longrightarrow> j < Z \<Longrightarrow> (\<Sum>k<Z. a k i * a k j) = (if i = j then 1 else 0)"
    and k: "k < Z" and l: "l < Z"
  shows "(\<Sum>i<Z. a k i * a l i) = (if k = l then 1 else 0)"
proof -
  define P where "P k l = (\<Sum>i<Z. a k i * a l i)" for k l
  have sym: "P k l = P l k" for k l by (simp add: P_def mult.commute)
  have idem: "(\<Sum>l<Z. P k l * P l m) = P k m" if "k < Z" "m < Z" for k m
  proof -
    have "(\<Sum>l<Z. P k l * P l m) = (\<Sum>l<Z. \<Sum>i<Z. \<Sum>j<Z. (a k i * a l i) * (a l j * a m j))"
      by (simp add: P_def sum_product)
    also have "\<dots> = (\<Sum>i<Z. \<Sum>l<Z. \<Sum>j<Z. (a k i * a l i) * (a l j * a m j))"
      by (rule sum.swap)
    also have "\<dots> = (\<Sum>i<Z. \<Sum>j<Z. \<Sum>l<Z. (a k i * a l i) * (a l j * a m j))"
      by (intro sum.cong refl sum.swap)
    also have "\<dots> = (\<Sum>i<Z. \<Sum>j<Z. a k i * a m j * (\<Sum>l<Z. a l i * a l j))"
      by (intro sum.cong refl) (simp add: sum_distrib_left mult_ac)
    also have "\<dots> = (\<Sum>i<Z. \<Sum>j<Z. a k i * a m j * (if i = j then 1 else 0))"
      by (intro sum.cong refl) (simp add: on)
    also have "\<dots> = (\<Sum>i<Z. \<Sum>j<Z. (if j = i then a k i * a m j else 0))"
      by (intro sum.cong refl) auto
    also have "\<dots> = (\<Sum>i<Z. a k i * a m i)"
      by (intro sum.cong refl) (simp add: sum.delta)
    finally show ?thesis by (simp add: P_def)
  qed
  have tr: "(\<Sum>k<Z. P k k) = real Z"
  proof -
    have "(\<Sum>k<Z. P k k) = (\<Sum>i<Z. \<Sum>k<Z. a k i * a k i)" unfolding P_def by (rule sum.swap)
    also have "\<dots> = (\<Sum>i<Z. 1)" by (intro sum.cong refl) (simp add: on)
    finally show ?thesis by simp
  qed
  define D where "D k l = (if k = l then 1 else 0) - P k l" for k l
  have sq: "(D k l)\<^sup>2 = (if l = k then 1 - 2 * P k k else 0) + P k l * P l k" for k l
    by (simp add: D_def power2_eq_square algebra_simps sym)
  have row: "(\<Sum>l<Z. (D k l)\<^sup>2) = 1 - P k k" if "k < Z" for k
  proof -
    have "(\<Sum>l<Z. (D k l)\<^sup>2) = (\<Sum>l<Z. (if l = k then 1 - 2 * P k k else 0)) + (\<Sum>l<Z. P k l * P l k)"
      by (simp add: sq sum.distrib)
    also have "\<dots> = (1 - 2 * P k k) + P k k"
      using that by (simp add: sum.delta idem)
    finally show ?thesis by simp
  qed
  have "(\<Sum>k<Z. \<Sum>l<Z. (D k l)\<^sup>2) = (\<Sum>k<Z. 1 - P k k)"
    by (intro sum.cong refl) (simp add: row)
  also have "\<dots> = 0" by (simp add: sum_subtractf tr)
  finally have z: "(\<Sum>k<Z. \<Sum>l<Z. (D k l)\<^sup>2) = 0" .
  have "(\<Sum>l<Z. (D k l)\<^sup>2) = 0"
    using z k by (subst (asm) sum_nonneg_eq_0_iff) (auto intro: sum_nonneg)
  then have "(D k l)\<^sup>2 = 0"
    using l by (subst (asm) sum_nonneg_eq_0_iff) auto
  then show ?thesis by (simp add: D_def P_def)
qed


lemma direction_row:
  assumes d: "d < length v" and w: "0 < width v"
  shows "direction v d = Inr (map (\<lambda>j. v ! d ! j) [0..<width v])"
proof -
  from w have u: "[0..<width v] = 0 # [Suc 0..<width v]" by (simp add: upt_conv_Cons)
  have "width (transp v) = length v"
    unfolding transp_def by (subst u) (simp add: width_def)
  then have "direction v d = Inr (map (\<lambda>r. r ! d) (transp v))"
    using d by (simp add: direction_def col_def)
  also have "map (\<lambda>r. r ! d) (transp v) = map (\<lambda>j. v ! d ! j) [0..<width v]"
    using d by (simp add: transp_def)
  finally show ?thesis .
qed

text \<open>
  Claim C5.  When \<^verbatim>\<open>torch.svd\<close> returns a singular value decomposition of the flattened
  Jacobian \<open>m\<close> of a sample, and the Jacobian has at least as many rows (pixels) as
  columns (latent dimensions), the vectors \<^verbatim>\<open>v.T[:, d]\<close> for the indices \<open>d\<close> below
  the latent dimension exist, each has unit norm, and any two of them for distinct
  indices have inner product zero.
\<close>

theorem directions_orthonormal:
  assumes sv: "is_svd m (svd m)" and tall: "width m \<le> length m"
  shows "\<forall>d<width m. \<forall>e<width m. \<exists>a b.
      direction (snd (snd (svd m))) d = Inr a \<and>
      direction (snd (snd (svd m))) e = Inr b \<and>
      dot a b = (if d = e then 1 else 0)"
proof (intro allI impI)
  fix d e assume d: "d < width m" and e: "e < width m"
  let ?Z = "width m"
  obtain u s v where usv: "svd m = (u, s, v)" by (metis prod.exhaust)
  from sv tall have lv: "length v = ?Z" and rv: "\<forall>r \<in> set v. length r = ?Z"
    and on: "orthonormal_cols v"
    by (simp_all add: is_svd_def usv Let_def min_def)
  from d lv have ne: "v \<noteq> []" by auto
  then have wv: "width v = ?Z" using rv by (cases v) (simp_all add: width_def)
  have o: "(\<Sum>k<?Z. v ! k ! i * v ! k ! j) = (if i = j then 1 else 0)"
    if "i < ?Z" "j < ?Z" for i j
    using on that by (simp add: orthonormal_cols_def wv lv)
  have r: "(\<Sum>i<?Z. v ! d ! i * v ! e ! i) = (if d = e then 1 else 0)"
    by (rule orth_rows[where a = "\<lambda>k i. v ! k ! i", OF o d e])
  let ?a = "map (\<lambda>j. v ! d ! j) [0..<?Z]" and ?b = "map (\<lambda>j. v ! e ! j) [0..<?Z]"
  have da: "direction v d = Inr ?a" using direction_row[of d v] d lv wv by simp
  have db: "direction v e = Inr ?b" using direction_row[of e v] e d lv wv by simp
  have "dot ?a ?b = (\<Sum>i<?Z. v ! d ! i * v ! e ! i)"
    unfolding dot_def by (rule sum.cong) simp_all
  with r have "dot ?a ?b = (if d = e then 1 else 0)" by simp
  with da db show "\<exists>a b.
      direction (snd (snd (svd m))) d = Inr a \<and>
      direction (snd (snd (svd m))) e = Inr b \<and>
      dot a b = (if d = e then 1 else 0)"
    by (simp add: usv)
qed

theorem directions_orthonormal_witness:
  "is_svd m5 (svd5 m5) \<and> width m5 \<le> length m5
   \<and> (0 :: nat) < width m5 \<and> Suc 0 < width m5
   \<and> direction (snd (snd (svd5 m5))) 0 = Inr [3 / 5, - 12 / 25, 16 / 25, 0, 0]
   \<and> direction (snd (snd (svd5 m5))) (Suc 0) = Inr [4 / 5, 9 / 25, - 12 / 25, 0, 0]
   \<and> dot [3 / 5, - 12 / 25, 16 / 25, 0, 0] [4 / 5, 9 / 25, - 12 / 25, 0, 0] = 0
   \<and> dot [3 / 5, - 12 / 25, 16 / 25, 0, 0] [3 / 5, - 12 / 25, 16 / 25, 0, 0] = 1"
proof -
  have tall: "width m5 \<le> length m5" and p: "(0 :: nat) < width m5" and q: "Suc 0 < width m5"
    by (simp_all add: m5_def width_def)
  have v: "snd (snd (svd5 m5)) = v5" by (simp add: svd5_def)
  have d0: "direction (snd (snd (svd5 m5))) 0 = Inr [3 / 5, - 12 / 25, 16 / 25, 0, 0]"
    and d1: "direction (snd (snd (svd5 m5))) (Suc 0) = Inr [4 / 5, 9 / 25, - 12 / 25, 0, 0]"
    unfolding v by (rule directions5)+
  note t = directions_orthonormal[where m = m5 and svd = svd5, OF is_svd5 tall, rule_format]
  from t[OF p q] have a:
    "dot [3 / 5, - 12 / 25, 16 / 25, 0, 0] [4 / 5, 9 / 25, - 12 / 25, 0, 0] = 0"
    unfolding d0 d1 by auto
  from t[OF p p] have b:
    "dot [3 / 5, - 12 / 25, 16 / 25, 0, 0] [3 / 5, - 12 / 25, 16 / 25, 0, 0] = 1"
    unfolding d0 by auto
  show ?thesis
    by (intro conjI) (rule is_svd5 tall p q d0 d1 a b)+
qed

end
